theory Spec2Isabelle
  imports Complex_Main "HOL-Library.AList"
begin

section \<open>Numbers\<close>

text \<open>
  The TypeScript type \<open>number\<close> is modelled by \<^typ>\<open>real\<close>: arithmetic is exact, and
  the rounding of IEEE-754 doubles, NaN and the infinities are outside the model.
  Wherever the source divides, the theorems below say for which divisors they speak.

  \<open>Math.round\<close> rounds to the nearest integer and a tie goes towards plus infinity,
  which is \<open>\<lfloor>v + 1/2\<rfloor>\<close>; \<open>Math.min\<close> and \<open>Math.abs\<close> are \<^const>\<open>min\<close> and \<^const>\<open>abs\<close>.
\<close>

definition Math_round :: "real \<Rightarrow> real" where
  "Math_round v = of_int \<lfloor>v + 1 / 2\<rfloor>"

section \<open>Options and configuration (confetti.ts, useConfetti.ts)\<close>

text \<open>
  A completion callback is opaque to the burst; the model keeps its identity only.
  \<open>NoOp\<close> is the constructor's default \<open>() => {}\<close>, \<open>HookOnStop\<close> is the closure
  the hook installs, \<open>UserCallback n\<close> is any callback a caller passes.
\<close>

datatype callback = NoOp | HookOnStop | UserCallback nat

text \<open>\<open>ConfettiOptions\<close>: every field is optional; \<open>None\<close> is an omitted field.\<close>

record ConfettiOptions =
  opt_bounceCount :: "real option"
  opt_duration :: "real option"
  opt_particleCount :: "real option"
  opt_randomizeStart :: "bool option"
  opt_size :: "real option"
  opt_spread :: "real option"
  opt_startVelocity :: "real option"
  opt_onStop :: "callback option"

text \<open>\<open>ConfettiConfig = Required<ConfettiOptions>\<close>.\<close>

record ConfettiConfig =
  cfg_bounceCount :: real
  cfg_duration :: real
  cfg_onStop :: callback
  cfg_particleCount :: real
  cfg_randomizeStart :: bool
  cfg_size :: real
  cfg_spread :: real
  cfg_startVelocity :: real

text \<open>The object \<open>{}\<close>, which is what spreading or destructuring \<open>undefined\<close> sees.\<close>

definition no_options :: ConfettiOptions where
  "no_options =
     \<lparr>opt_bounceCount = None, opt_duration = None, opt_particleCount = None,
      opt_randomizeStart = None, opt_size = None, opt_spread = None,
      opt_startVelocity = None, opt_onStop = None\<rparr>"

text \<open>\<open>field ?? default\<close> as the object spread and the destructuring defaults use it.\<close>

fun orDefault :: "'a option \<Rightarrow> 'a \<Rightarrow> 'a" where
  "orDefault None d = d"
| "orDefault (Some v) d = v"

text \<open>The constructor of \<open>ConfettiBurst\<close>: the defaults, overwritten by the given options.\<close>

definition ConfettiBurst_constructor :: "ConfettiOptions option \<Rightarrow> ConfettiConfig" where
  "ConfettiBurst_constructor options =
     (let opts = orDefault options no_options in
      \<lparr>cfg_bounceCount = orDefault (opt_bounceCount opts) 2,
       cfg_duration = orDefault (opt_duration opts) 2000,
       cfg_onStop = orDefault (opt_onStop opts) NoOp,
       cfg_particleCount = orDefault (opt_particleCount opts) 150,
       cfg_randomizeStart = orDefault (opt_randomizeStart opts) False,
       cfg_size = orDefault (opt_size opts) 12,
       cfg_spread = orDefault (opt_spread opts) 70,
       cfg_startVelocity = orDefault (opt_startVelocity opts) 25\<rparr>)"

subsection \<open>Responsive scaling (useConfetti.ts, updateScalingFactors)\<close>

record ScalingFactors =
  sf_duration :: real
  sf_particleCount :: real
  sf_size :: real
  sf_spread :: real
  sf_startVelocity :: real

text \<open>
  The first two arguments are \<open>window.innerWidth\<close> and \<open>window.innerHeight\<close>, which
  the source reads from the global \<open>window\<close>.
\<close>

definition avgScale :: "real \<Rightarrow> real \<Rightarrow> real" where
  "avgScale innerWidth innerHeight =
     (let widthScale = innerWidth / 1200;
          heightScale = innerHeight / 800
      in (widthScale + heightScale) / 2)"

text \<open>The object \<open>scalingFactors\<close> as it is built first: the options, or the defaults.\<close>

definition scalingFactors_init :: "ConfettiOptions option \<Rightarrow> ScalingFactors" where
  "scalingFactors_init options =
     (let opts = orDefault options no_options;
          duration = orDefault (opt_duration opts) 2000;
          particleCount = orDefault (opt_particleCount opts) 150;
          spread = orDefault (opt_spread opts) 70;
          size = orDefault (opt_size opts) 15;
          startVelocity = orDefault (opt_startVelocity opts) 25
      in \<lparr>sf_duration = duration, sf_particleCount = particleCount, sf_size = size,
          sf_spread = spread, sf_startVelocity = startVelocity\<rparr>)"

definition updateScalingFactors ::
    "real \<Rightarrow> real \<Rightarrow> ConfettiOptions option \<Rightarrow> ScalingFactors" where
  "updateScalingFactors innerWidth innerHeight options =
     (let scalingFactors = scalingFactors_init options;
          duration = sf_duration scalingFactors;
          particleCount = sf_particleCount scalingFactors;
          size = sf_size scalingFactors;
          spread = sf_spread scalingFactors;
          startVelocity = sf_startVelocity scalingFactors;
          s = avgScale innerWidth innerHeight
      in scalingFactors
          \<lparr>sf_size := min (Math_round (size * s)) size,
           sf_particleCount := min (Math_round (particleCount * s)) particleCount,
           sf_spread := min (Math_round (spread * s)) spread,
           sf_startVelocity := min (Math_round (startVelocity * s)) startVelocity,
           sf_duration := min (Math_round (duration * s)) duration\<rparr>)"

text \<open>
  \<open>baseOptions\<close> of the debounced callback of \<open>fireConfetti\<close>: the caller's options,
  then the five scaled fields and the hook's own \<open>onStop\<close>, which overwrite them.
\<close>

definition baseOptions :: "real \<Rightarrow> real \<Rightarrow> ConfettiOptions option \<Rightarrow> ConfettiOptions" where
  "baseOptions innerWidth innerHeight options =
     (let sf = updateScalingFactors innerWidth innerHeight options in
      (orDefault options no_options)
        \<lparr>opt_duration := Some (sf_duration sf),
         opt_onStop := Some HookOnStop,
         opt_particleCount := Some (sf_particleCount sf),
         opt_size := Some (sf_size sf),
         opt_spread := Some (sf_spread sf),
         opt_startVelocity := Some (sf_startVelocity sf)\<rparr>)"

section \<open>Fade-out and collisions (confetti.ts)\<close>

text \<open>
  \<open>applyFadeOut\<close> returns the opacity; it also writes it to the particle's style when
  the progress is past 0.7 (\<open>apply_styles\<close> below keeps the style).
  The quotient is the real one, so the theorems on it take a duration other than 0.
\<close>

definition applyFadeOut :: "real \<Rightarrow> real \<Rightarrow> real" where
  "applyFadeOut timeLeft duration =
     (let progress = 1 - timeLeft / duration in
      if progress > 0.7 then 1 - (progress - 0.7) / 0.3 else 1)"

text \<open>The handlers return \<open>(y, vy, bounces, isSettling)\<close> and \<open>(x, vx)\<close>.\<close>

definition handleTopBounce ::
    "real \<Rightarrow> real \<Rightarrow> real \<Rightarrow> real \<Rightarrow> real \<Rightarrow> real \<times> real \<times> real \<times> bool" where
  "handleTopBounce y vy bounces bounceCount bounceDamping =
     (if y \<le> 0 \<and> vy < 0 then
        (let newBounces = bounces + 1;
             newVy = - vy * bounceDamping;
             isSettling = (newBounces \<ge> bounceCount)
         in (0, (if isSettling then \<bar>newVy * 0.5\<bar> else newVy), newBounces, isSettling))
      else (y, vy, bounces, bounces \<ge> bounceCount))"

definition handleBottomBounce ::
    "real \<Rightarrow> real \<Rightarrow> real \<Rightarrow> real \<Rightarrow> real \<Rightarrow> real \<Rightarrow> bool \<Rightarrow> real \<times> real \<times> real \<times> bool" where
  "handleBottomBounce innerHeight y vy bounces bounceCount bounceDamping isSettling =
     (let viewportBottom = innerHeight - 20 in
      if y \<ge> viewportBottom \<and> vy > 0 \<and> \<not> isSettling then
        (let newBounces = bounces + 1;
             newVy = - vy * bounceDamping;
             newIsSettling = (newBounces \<ge> bounceCount)
         in (viewportBottom, newVy, newBounces, newIsSettling))
      else (y, vy, bounces, isSettling))"

definition handleSideBounce :: "real \<Rightarrow> real \<Rightarrow> real \<Rightarrow> real \<times> real" where
  "handleSideBounce innerWidth x vx =
     (let viewportLeft = 0; viewportRight = innerWidth in
      if x \<le> viewportLeft \<and> vx < 0 then (viewportLeft, - vx * 0.8)
      else if x \<ge> viewportRight \<and> vx > 0 then (viewportRight, - vx * 0.8)
      else (x, vx))"

section \<open>The motion of one particle (confetti.ts, animateParticle)\<close>

text \<open>
  The variables the closure \<open>update\<close> of \<open>animateParticle\<close> keeps between frames, the
  constants it captures, and the style properties it writes to its particle.
  \<open>st_transform\<close> is the angle of \<open>rotate(...deg)\<close>; a style that was never written
  is \<open>None\<close>.
\<close>

record motion =
  p_rotation :: real
  p_x :: real
  p_y :: real
  p_vy :: real
  p_vx :: real
  p_bounces :: real
  p_isSettling :: bool
  p_rotationSpeed :: real
  p_wind :: real
  p_endTime :: real
  st_left :: real
  st_top :: real
  st_transform :: "real option"
  st_opacity :: "real option"

text \<open>
  The state \<open>animateParticle\<close> starts from. \<open>r_velocity\<close>, \<open>r_rotation\<close> and \<open>r_wind\<close>
  are its three results of \<open>Math.random()\<close>, in the order it draws them; \<open>now\<close> is
  \<open>Date.now()\<close>. \<open>createParticles\<close> has set the styles \<open>left\<close> and \<open>top\<close> before.
\<close>

definition animateParticle_init ::
    "ConfettiConfig \<Rightarrow> real \<Rightarrow> real \<Rightarrow> real \<Rightarrow> real \<Rightarrow> real \<Rightarrow> real \<Rightarrow> real \<Rightarrow> motion" where
  "animateParticle_init cfg now r_velocity r_rotation r_wind startX startY angle =
     (let velocity = cfg_startVelocity cfg * (0.8 + r_velocity * 0.4);
          angleRad = (angle * pi) / 180;
          horizontalVelocity = sin angleRad * velocity * 0.5;
          initialVerticalVelocity = - \<bar>velocity\<bar>;
          rotationSpeed = (r_rotation - 0.5) * velocity;
          wind = (r_wind - 0.5) * 0.1;
          startTime = now;
          endTime = startTime + cfg_duration cfg
      in \<lparr>p_rotation = 0, p_x = startX, p_y = startY,
          p_vy = initialVerticalVelocity, p_vx = horizontalVelocity,
          p_bounces = 0, p_isSettling = False,
          p_rotationSpeed = rotationSpeed, p_wind = wind, p_endTime = endTime,
          st_left = startX, st_top = startY, st_transform = None, st_opacity = None\<rparr>)"

text \<open>The body of \<open>update\<close> after its lifetime test, block by block.\<close>

definition apply_physics :: "motion \<Rightarrow> motion" where
  "apply_physics m =
     (let gravity = 0.8;
          m1 = (if \<not> p_isSettling m
                then m\<lparr>p_vy := p_vy m + gravity, p_vx := p_vx m + p_wind m * 0.05\<rparr>
                else m\<lparr>p_vy := p_vy m + gravity * 0.3, p_vx := p_vx m * 0.98\<rparr>)
      in m1\<lparr>p_x := p_x m1 + p_vx m1, p_y := p_y m1 + p_vy m1,
             p_rotation := p_rotation m1 + p_rotationSpeed m1\<rparr>)"

definition collide_top :: "real \<Rightarrow> motion \<Rightarrow> motion" where
  "collide_top bounceCount m =
     (case handleTopBounce (p_y m) (p_vy m) (p_bounces m) bounceCount 0.7 of
        (y, vy, bounces, isSettling) \<Rightarrow>
          m\<lparr>p_y := y, p_vy := vy, p_bounces := bounces, p_isSettling := isSettling\<rparr>)"

definition collide_bottom :: "real \<Rightarrow> real \<Rightarrow> motion \<Rightarrow> motion" where
  "collide_bottom innerHeight bounceCount m =
     (case handleBottomBounce innerHeight (p_y m) (p_vy m) (p_bounces m) bounceCount 0.7
             (p_isSettling m) of
        (y, vy, bounces, isSettling) \<Rightarrow>
          m\<lparr>p_y := y, p_vy := vy, p_bounces := bounces, p_isSettling := isSettling\<rparr>)"

definition collide_side :: "real \<Rightarrow> motion \<Rightarrow> motion" where
  "collide_side innerWidth m =
     (case handleSideBounce innerWidth (p_x m) (p_vx m) of
        (x, vx) \<Rightarrow> m\<lparr>p_x := x, p_vx := vx\<rparr>)"

definition handle_collisions :: "real \<Rightarrow> real \<Rightarrow> real \<Rightarrow> motion \<Rightarrow> motion" where
  "handle_collisions innerWidth innerHeight bounceCount m =
     collide_side innerWidth (collide_bottom innerHeight bounceCount (collide_top bounceCount m))"

definition apply_styles :: "real \<Rightarrow> real \<Rightarrow> motion \<Rightarrow> motion" where
  "apply_styles timeLeft duration m =
     (let m1 = m\<lparr>st_left := p_x m, st_top := p_y m, st_transform := Some (p_rotation m)\<rparr>;
          progress = 1 - timeLeft / duration
      in if progress > 0.7 then m1\<lparr>st_opacity := Some (applyFadeOut timeLeft duration)\<rparr>
         else m1)"

definition update_motion :: "real \<Rightarrow> real \<Rightarrow> real \<Rightarrow> real \<Rightarrow> real \<Rightarrow> motion \<Rightarrow> motion" where
  "update_motion innerWidth innerHeight bounceCount duration timeLeft m =
     apply_styles timeLeft duration
       (handle_collisions innerWidth innerHeight bounceCount (apply_physics m))"

text \<open>
  A frame is \<open>(now, innerWidth, innerHeight)\<close>: the clock and the window as the
  callback reads them. \<open>run_updates\<close> is the life of one closure over a sequence of
  frames: when its time is up it returns without asking for another frame, so the
  later frames of the list never reach it.
\<close>

type_synonym frame = "real \<times> real \<times> real"

fun run_updates :: "real \<Rightarrow> real \<Rightarrow> frame list \<Rightarrow> motion \<Rightarrow> motion" where
  "run_updates bounceCount duration [] m = m"
| "run_updates bounceCount duration ((now, innerWidth, innerHeight) # fs) m =
     (let timeLeft = p_endTime m - now in
      if timeLeft \<le> 0 then m
      else run_updates bounceCount duration fs
             (update_motion innerWidth innerHeight bounceCount duration timeLeft m))"

text \<open>The frames \<open>16 ms\<close> apart that a 60 Hz display gives, on a window that keeps its size.\<close>

definition steady_frames :: "real \<Rightarrow> real \<Rightarrow> nat \<Rightarrow> frame list" where
  "steady_frames innerWidth innerHeight n =
     map (\<lambda>k. (16 * real (Suc k), innerWidth, innerHeight)) [0..<n]"

text \<open>The opacity as section 4.3 of the specification words it, over the progress.\<close>

definition fade_spec :: "real \<Rightarrow> real" where
  "fade_spec progress = (if progress \<le> 0.7 then 1 else 1 - (progress - 0.7) / 0.3)"

text \<open>A closure in flight, used to instantiate the theorems on one frame.\<close>

definition sample_motion :: motion where
  "sample_motion =
     \<lparr>p_rotation = 0, p_x = 1, p_y = 100, p_vy = 0, p_vx = - 5, p_bounces = 0,
      p_isSettling = False, p_rotationSpeed = 3, p_wind = 0, p_endTime = 2000,
      st_left = 1, st_top = 100, st_transform = None, st_opacity = None\<rparr>"


section \<open>The burst and its host (confetti.ts, class ConfettiBurst)\<close>

text \<open>
  A DOM element is its identity: the number of elements \<open>document.createElement\<close> had
  made before it. The visuals of a particle are what \<open>createParticle\<close> draws for it:
  width, height, hue and alpha of the colour, and the index of the shape in the
  table of \<open>getRandomShape\<close>.
\<close>

type_synonym elem = nat

record visual =
  v_width :: real
  v_height :: real
  v_hue :: real
  v_alpha :: real
  v_shape :: int

text \<open>
  One \<open>ConfettiBurst\<close> with the part of the browser it touches.
  \<^item> \<open>window_innerWidth\<close>, \<open>window_innerHeight\<close>: the window.
  \<^item> \<open>random_seq\<close>, \<open>random_drawn\<close>: the results \<open>Math.random()\<close> gives, and how many
    of them were taken.
  \<^item> \<open>elements_created\<close>, \<open>body_children\<close>, \<open>child_nodes\<close>, \<open>visuals\<close>: the document.
  \<^item> \<open>pending_timeouts\<close> (identifier and delay) and \<open>pending_frames\<close> (identifier and
    the particle whose \<open>update\<close> is the callback): what \<open>setTimeout\<close> and
    \<open>requestAnimationFrame\<close> hold and have neither run nor cancelled.
  \<^item> \<open>config\<close>, \<open>animationIds\<close>, \<open>cleanupTimeoutId\<close>, \<open>container\<close>, \<open>particles\<close>: the
    fields of the instance; the \<open>Map\<close> is an association list in insertion order.
  \<^item> \<open>motions\<close>: the variables of the closure \<open>update\<close> of each particle.
  \<^item> \<open>onStop_calls\<close>: every call of \<open>config.onStop\<close>, oldest first. The callback is
    opaque: what it does beyond being called is not part of the burst.
\<close>

record state =
  window_innerWidth :: real
  window_innerHeight :: real
  random_seq :: "nat \<Rightarrow> real"
  random_drawn :: nat
  elements_created :: nat
  body_children :: "elem list"
  child_nodes :: "elem \<Rightarrow> elem list"
  visuals :: "elem \<Rightarrow> visual option"
  pending_timeouts :: "(nat \<times> real) list"
  next_timeout :: nat
  pending_frames :: "(nat \<times> elem) list"
  next_frame :: nat
  config :: ConfettiConfig
  animationIds :: "(elem \<times> nat) list"
  cleanupTimeoutId :: "nat option"
  container :: "elem option"
  particles :: "elem list"
  motions :: "elem \<Rightarrow> motion option"
  onStop_calls :: "callback list"

text \<open>\<open>new ConfettiBurst(options)\<close> in an empty document; the browser numbers timers from 1.\<close>

definition new_burst :: "ConfettiOptions option \<Rightarrow> real \<Rightarrow> real \<Rightarrow> (nat \<Rightarrow> real) \<Rightarrow> state" where
  "new_burst options w h rnd =
     \<lparr>window_innerWidth = w, window_innerHeight = h, random_seq = rnd, random_drawn = 0,
      elements_created = 0, body_children = [], child_nodes = (\<lambda>_. []),
      visuals = (\<lambda>_. None), pending_timeouts = [], next_timeout = 1,
      pending_frames = [], next_frame = 1,
      config = ConfettiBurst_constructor options, animationIds = [],
      cleanupTimeoutId = None, container = None, particles = [],
      motions = (\<lambda>_. None), onStop_calls = []\<rparr>"

subsection \<open>The host's primitives\<close>

definition Math_random :: "state \<Rightarrow> real \<times> state" where
  "Math_random s = (random_seq s (random_drawn s), s\<lparr>random_drawn := Suc (random_drawn s)\<rparr>)"

definition createElement :: "state \<Rightarrow> elem \<times> state" where
  "createElement s = (elements_created s, s\<lparr>elements_created := Suc (elements_created s)\<rparr>)"

definition requestAnimationFrame :: "elem \<Rightarrow> state \<Rightarrow> nat \<times> state" where
  "requestAnimationFrame particle s =
     (next_frame s,
      s\<lparr>pending_frames := pending_frames s @ [(next_frame s, particle)],
        next_frame := Suc (next_frame s)\<rparr>)"

definition cancelAnimationFrame :: "nat \<Rightarrow> state \<Rightarrow> state" where
  "cancelAnimationFrame frameId s = s\<lparr>pending_frames := AList.delete frameId (pending_frames s)\<rparr>"

definition setTimeout :: "real \<Rightarrow> state \<Rightarrow> nat \<times> state" where
  "setTimeout delay s =
     (next_timeout s,
      s\<lparr>pending_timeouts := pending_timeouts s @ [(next_timeout s, delay)],
        next_timeout := Suc (next_timeout s)\<rparr>)"

definition clearTimeout :: "nat \<Rightarrow> state \<Rightarrow> state" where
  "clearTimeout timeoutId s = s\<lparr>pending_timeouts := AList.delete timeoutId (pending_timeouts s)\<rparr>"

subsection \<open>The methods\<close>

definition createContainer :: "state \<Rightarrow> state" where
  "createContainer s =
     (case createElement s of
        (c, s1) \<Rightarrow> s1\<lparr>container := Some c, body_children := body_children s1 @ [c]\<rparr>)"

text \<open>
  \<open>createParticle\<close> draws the width and the height, then, inside the style text, the
  hue and the alpha of \<open>getRandomColor\<close> and the index of \<open>getRandomShape\<close>.
\<close>

definition createParticle :: "state \<Rightarrow> elem \<times> state" where
  "createParticle s =
     (let size = cfg_size (config s) in
      case createElement s of (particle, s1) \<Rightarrow>
      case Math_random s1 of (r1, s2) \<Rightarrow>
      case Math_random s2 of (r2, s3) \<Rightarrow>
      case Math_random s3 of (r3, s4) \<Rightarrow>
      case Math_random s4 of (r4, s5) \<Rightarrow>
      case Math_random s5 of (r5, s6) \<Rightarrow>
        (particle,
         s6\<lparr>visuals := (visuals s6)(particle \<mapsto>
              \<lparr>v_width = (r1 - 0.25) * size * 2, v_height = (r2 - 0.25) * size * 2,
               v_hue = r3 * 360, v_alpha = 0.7 + r4 * 0.3, v_shape = \<lfloor>r5 * 12\<rfloor>\<rparr>)\<rparr>))"

definition animateParticle :: "real \<Rightarrow> elem \<Rightarrow> real \<Rightarrow> real \<Rightarrow> real \<Rightarrow> state \<Rightarrow> state" where
  "animateParticle now particle startX startY angle s =
     (case Math_random s of (r_velocity, s1) \<Rightarrow>
      case Math_random s1 of (r_rotation, s2) \<Rightarrow>
      case Math_random s2 of (r_wind, s3) \<Rightarrow>
      let s4 = s3\<lparr>motions := (motions s3)(particle \<mapsto>
                  animateParticle_init (config s3) now r_velocity r_rotation r_wind
                    startX startY angle)\<rparr>
      in case requestAnimationFrame particle s4 of (frameId, s5) \<Rightarrow>
           s5\<lparr>animationIds := AList.update particle frameId (animationIds s5)\<rparr>)"

text \<open>One turn of the loop of \<open>createParticles\<close>, and the loop \<open>for (let i = 1; i < particleCount; i++)\<close>.\<close>

definition createParticles_body :: "real \<Rightarrow> real \<Rightarrow> real \<Rightarrow> real \<Rightarrow> state \<times> elem list \<Rightarrow> state \<times> elem list" where
  "createParticles_body now spread centerX startY sf =
     (case sf of (s, fragment) \<Rightarrow>
      case createParticle s of (particle, s1) \<Rightarrow>
      case Math_random s1 of (r_angle, s2) \<Rightarrow>
      case Math_random s2 of (r_offset, s3) \<Rightarrow>
      let angle = (r_angle - 0.5) * spread;
          spreadOffset = (r_offset - 0.5) * (window_innerWidth s3 * 0.3);
          startX = centerX + spreadOffset;
          s4 = s3\<lparr>particles := particles s3 @ [particle]\<rparr>
      in (animateParticle now particle startX startY angle s4, fragment @ [particle]))"

function createParticles_loop ::
    "nat \<Rightarrow> real \<Rightarrow> real \<Rightarrow> real \<Rightarrow> real \<Rightarrow> real \<Rightarrow> state \<times> elem list \<Rightarrow> state \<times> elem list" where
  "createParticles_loop i particleCount now spread centerX startY sf =
     (if real i < particleCount
      then createParticles_loop (Suc i) particleCount now spread centerX startY
             (createParticles_body now spread centerX startY sf)
      else sf)"
  by pat_completeness auto
termination
  by (relation "measure (\<lambda>(i, particleCount, _). nat \<lceil>particleCount\<rceil> - i)") (auto, linarith)

text \<open>
  \<open>centerX\<close>: a random place across the window when \<open>randomizeStart\<close> is set, which
  takes one \<open>Math.random()\<close>, and the middle of the window otherwise.
\<close>

definition draw_centerX :: "state \<Rightarrow> real \<times> state" where
  "draw_centerX s =
     (if cfg_randomizeStart (config s)
      then (case Math_random s of (r, s1) \<Rightarrow> (r * window_innerWidth s1, s1))
      else (window_innerWidth s / 2, s))"

definition createParticles :: "real \<Rightarrow> state \<Rightarrow> state" where
  "createParticles now s =
     (case container s of
        None \<Rightarrow> s
      | Some c \<Rightarrow>
          (let particleCount = cfg_particleCount (config s);
               spread = cfg_spread (config s)
           in case draw_centerX s of
                (centerX, s1) \<Rightarrow>
              let startY = window_innerHeight s1 + spread in
              case createParticles_loop 1 particleCount now spread centerX startY (s1, []) of
                (s2, fragment) \<Rightarrow>
                  s2\<lparr>child_nodes := (child_nodes s2)(c := child_nodes s2 c @ fragment)\<rparr>))"

definition cleanup :: "state \<Rightarrow> state" where
  "cleanup s =
     (let s1 = (case cleanupTimeoutId s of
                  Some timeoutId \<Rightarrow> (clearTimeout timeoutId s)\<lparr>cleanupTimeoutId := None\<rparr>
                | None \<Rightarrow> s);
          s2 = (case container s1 of
                  Some c \<Rightarrow>
                    if c \<in> set (body_children s1)
                    then s1\<lparr>body_children := removeAll c (body_children s1)\<rparr>
                    else s1
                | None \<Rightarrow> s1);
          s3 = s2\<lparr>container := None, particles := []\<rparr>;
          s4 = fold cancelAnimationFrame (map snd (animationIds s3)) s3;
          s5 = s4\<lparr>animationIds := []\<rparr>
      in s5\<lparr>onStop_calls := onStop_calls s5 @ [cfg_onStop (config s5)]\<rparr>)"

definition scheduleCleanup :: "state \<Rightarrow> state" where
  "scheduleCleanup s =
     (let s1 = (case cleanupTimeoutId s of
                  Some timeoutId \<Rightarrow> (clearTimeout timeoutId s)\<lparr>cleanupTimeoutId := None\<rparr>
                | None \<Rightarrow> s)
      in case setTimeout (cfg_duration (config s1)) s1 of
           (timeoutId, s2) \<Rightarrow> s2\<lparr>cleanupTimeoutId := Some timeoutId\<rparr>)"

definition fire :: "real \<Rightarrow> state \<Rightarrow> state" where
  "fire now s = scheduleCleanup (createParticles now (createContainer s))"

definition stop :: "state \<Rightarrow> state" where
  "stop s = cleanup s"

text \<open>
  The closure \<open>update\<close> of a particle, called by the browser at time \<open>now\<close>. A
  particle that \<open>animateParticle\<close> never saw has no closure.
\<close>

definition update :: "real \<Rightarrow> elem \<Rightarrow> state \<Rightarrow> state" where
  "update now particle s =
     (case motions s particle of
        None \<Rightarrow> s
      | Some m \<Rightarrow>
          (let timeLeft = p_endTime m - now in
           if timeLeft \<le> 0 then s\<lparr>animationIds := AList.delete particle (animationIds s)\<rparr>
           else
             (let m1 = update_motion (window_innerWidth s) (window_innerHeight s)
                         (cfg_bounceCount (config s)) (cfg_duration (config s)) timeLeft m;
                  s1 = s\<lparr>motions := (motions s)(particle \<mapsto> m1)\<rparr>
              in case requestAnimationFrame particle s1 of
                   (frameId, s2) \<Rightarrow>
                     s2\<lparr>animationIds := AList.update particle frameId (animationIds s2)\<rparr>)))"

subsection \<open>What the browser does\<close>

text \<open>
  The browser runs a pending animation frame, which is then no longer pending, and a
  pending timeout, whose callback is \<open>cleanup\<close>. A frame or a timeout that was cancelled
  or has run is not pending, and nothing happens.
\<close>

definition run_frame :: "real \<Rightarrow> nat \<Rightarrow> state \<Rightarrow> state" where
  "run_frame now frameId s =
     (case map_of (pending_frames s) frameId of
        None \<Rightarrow> s
      | Some particle \<Rightarrow>
          update now particle (s\<lparr>pending_frames := AList.delete frameId (pending_frames s)\<rparr>))"

definition run_timeout :: "nat \<Rightarrow> state \<Rightarrow> state" where
  "run_timeout timeoutId s =
     (case map_of (pending_timeouts s) timeoutId of
        None \<Rightarrow> s
      | Some delay \<Rightarrow>
          cleanup (s\<lparr>pending_timeouts := AList.delete timeoutId (pending_timeouts s)\<rparr>))"

subsection \<open>Relations between states, used to state what a method leaves alone\<close>

text \<open>
  The particles and the drivers agree: the pending animation frames are the entries
  of \<open>animationIds\<close>, the keys of \<open>animationIds\<close> are the particles in their order, and
  every particle is an element that was created.
\<close>

definition drivers_match :: "state \<Rightarrow> bool" where
  "drivers_match s =
     (pending_frames s = map (\<lambda>(p, f). (f, p)) (animationIds s) \<and>
      map fst (animationIds s) = particles s \<and>
      list_all (\<lambda>p. p < elements_created s) (particles s))"

text \<open>What no turn of the loop of \<open>createParticles\<close> writes.\<close>

definition outside_loop ::
    "state \<Rightarrow> real \<times> real \<times> ConfettiConfig \<times> elem option \<times> elem list \<times> (elem \<Rightarrow> elem list) \<times>
       (nat \<times> real) list \<times> nat \<times> nat option \<times> callback list" where
  "outside_loop s =
     (window_innerWidth s, window_innerHeight s, config s, container s, body_children s,
      child_nodes s, pending_timeouts s, next_timeout s, cleanupTimeoutId s, onStop_calls s)"

text \<open>How many turns the loop of \<open>createParticles\<close> takes: it counts from 1.\<close>

definition turns :: "state \<Rightarrow> nat" where
  "turns s = nat \<lceil>cfg_particleCount (config s)\<rceil> - 1"

text \<open>
  A burst of \<open>particleCount\<close> 3 fired at time 0 in a window of 1200 by 800, every
  \<open>Math.random()\<close> giving one half; it instantiates the theorems on states.
\<close>

definition sample_burst :: state where
  "sample_burst =
     fire 0 (new_burst (Some (no_options\<lparr>opt_particleCount := Some 3\<rparr>)) 1200 800 (\<lambda>_. 1 / 2))"

subsection \<open>Frames of a running burst\<close>

text \<open>
  The drivers are sound: every entry of \<open>animationIds\<close> names a pending frame whose
  callback is the \<open>update\<close> of that particle, every pending frame has an identifier
  that was given out, and its particle has a closure.
\<close>

definition pending_sound :: "state \<Rightarrow> bool" where
  "pending_sound s =
     (list_all (\<lambda>p. case map_of (animationIds s) p of
                        None \<Rightarrow> True
                      | Some f \<Rightarrow> map_of (pending_frames s) f = Some p)
        (map fst (animationIds s)) \<and>
      list_all (\<lambda>(f, p). f < next_frame s \<and> motions s p \<noteq> None) (pending_frames s))"

text \<open>
  The browser runs the frame that drives a particle, if it has one; \<open>animation\<close> does
  so for a list of times and particles, in any interleaving.
\<close>

definition animate :: "real \<Rightarrow> elem \<Rightarrow> state \<Rightarrow> state" where
  "animate now particle s =
     (case map_of (animationIds s) particle of
        None \<Rightarrow> s
      | Some frameId \<Rightarrow> run_frame now frameId s)"

fun animation :: "(real \<times> elem) list \<Rightarrow> state \<Rightarrow> state" where
  "animation [] s = s"
| "animation ((now, particle) # evs) s = animation evs (animate now particle s)"

text \<open>The frames of one particle among them, with the window of the state.\<close>

definition frames_of :: "elem \<Rightarrow> state \<Rightarrow> (real \<times> elem) list \<Rightarrow> frame list" where
  "frames_of particle s evs =
     map (\<lambda>(now, q). (now, window_innerWidth s, window_innerHeight s))
       (filter (\<lambda>(now, q). q = particle) evs)"

text \<open>The closure of a particle after the frames of a list, as \<open>run_updates\<close> gives it.\<close>

definition closure_after :: "elem \<Rightarrow> state \<Rightarrow> (real \<times> elem) list \<Rightarrow> motion \<Rightarrow> motion" where
  "closure_after particle s evs m =
     (case map_of (animationIds s) particle of
        None \<Rightarrow> m
      | Some frameId \<Rightarrow>
          run_updates (cfg_bounceCount (config s)) (cfg_duration (config s))
            (frames_of particle s evs) m)"

text \<open>The first \<open>n\<close> frames of a particle on a 60 Hz display, 16 ms apart.\<close>

definition ticks :: "nat \<Rightarrow> elem \<Rightarrow> (real \<times> elem) list" where
  "ticks n particle = map (\<lambda>k. (16 * real (Suc k), particle)) [0..<n]"

section \<open>The hook (useConfetti.ts)\<close>

text \<open>
  The hook sees a burst as its test suite does: an object with \<open>fire\<close> and \<open>stop\<close>,
  made from the options the hook hands to the constructor. The model keeps
  \<^item> \<open>activeInstancesRef\<close>, \<open>debounceTimerRef\<close>, \<open>isActive\<close>: the two refs and the state;
  \<^item> \<open>debounce_timers\<close>: the timeouts of \<open>fireConfetti\<close> that are pending, each with
    the time at which it is due and the options its callback has captured;
    \<open>next_timer\<close> is the identifier the next \<open>setTimeout\<close> returns;
  \<^item> \<open>fired\<close>: the configuration of every burst that was constructed and fired,
    oldest first; \<open>stops\<close>: how often \<open>stop\<close> was called on a burst.
  Times are in milliseconds.
\<close>

record hook =
  activeInstancesRef :: "ConfettiConfig option"
  debounceTimerRef :: "nat option"
  isActive :: bool
  debounce_timers :: "(nat \<times> nat \<times> ConfettiOptions option) list"
  next_timer :: nat
  fired :: "ConfettiConfig list"
  stops :: nat

definition new_hook :: hook where
  "new_hook =
     \<lparr>activeInstancesRef = None, debounceTimerRef = None, isActive = False,
      debounce_timers = [], next_timer = 1, fired = [], stops = 0\<rparr>"

text \<open>The closure \<open>onStop\<close> that the hook gives to every burst.\<close>

definition hook_onStop :: "hook \<Rightarrow> hook" where
  "hook_onStop hk = hk\<lparr>activeInstancesRef := None, isActive := False\<rparr>"

text \<open>\<open>stop\<close> on the active burst: its \<open>cleanup\<close> calls the \<open>onStop\<close> of its configuration.\<close>

definition burst_stop :: "hook \<Rightarrow> hook" where
  "burst_stop hk = hook_onStop (hk\<lparr>stops := Suc (stops hk)\<rparr>)"

definition stopConfetti :: "hook \<Rightarrow> hook" where
  "stopConfetti hk = (case activeInstancesRef hk of None \<Rightarrow> hk | Some burst \<Rightarrow> burst_stop hk)"

text \<open>
  \<open>fireConfetti\<close> at time \<open>now\<close>. The test \<open>if (debounceTimerRef.current)\<close> is false for no
  timer and for the identifier 0.
\<close>

definition fireConfetti :: "nat \<Rightarrow> ConfettiOptions option \<Rightarrow> hook \<Rightarrow> hook" where
  "fireConfetti now options hk =
     (let hk1 = (case debounceTimerRef hk of
                   None \<Rightarrow> hk
                 | Some t \<Rightarrow>
                     if t = 0 then hk
                     else hk\<lparr>debounce_timers := AList.delete t (debounce_timers hk)\<rparr>);
          t = next_timer hk1
      in hk1\<lparr>debounce_timers := debounce_timers hk1 @ [(t, now + 200, options)],
             next_timer := Suc t,
             debounceTimerRef := Some t\<rparr>)"

text \<open>The callback of that timeout, in a window of the given width and height.\<close>

definition debounced :: "real \<Rightarrow> real \<Rightarrow> ConfettiOptions option \<Rightarrow> hook \<Rightarrow> hook" where
  "debounced w h options hk =
     (let hk1 = (case activeInstancesRef hk of
                   None \<Rightarrow> hk
                 | Some burst \<Rightarrow> (burst_stop hk)\<lparr>activeInstancesRef := None\<rparr>);
          hk2 = hk1\<lparr>isActive := True\<rparr>;
          burst = ConfettiBurst_constructor (Some (baseOptions w h options))
      in hk2\<lparr>activeInstancesRef := Some burst, fired := fired hk2 @ [burst]\<rparr>)"

text \<open>
  The browser runs a pending timeout; \<open>elapse\<close> lets the clock reach \<open>now\<close> and runs the
  timeouts that are due by then, oldest first.
\<close>

definition run_timer :: "real \<Rightarrow> real \<Rightarrow> nat \<Rightarrow> hook \<Rightarrow> hook" where
  "run_timer w h t hk =
     (case map_of (debounce_timers hk) t of
        None \<Rightarrow> hk
      | Some (due, options) \<Rightarrow>
          debounced w h options (hk\<lparr>debounce_timers := AList.delete t (debounce_timers hk)\<rparr>))"

fun run_due :: "real \<Rightarrow> real \<Rightarrow> nat \<Rightarrow> (nat \<times> nat \<times> ConfettiOptions option) list \<Rightarrow> hook \<Rightarrow> hook" where
  "run_due w h now [] hk = hk"
| "run_due w h now ((t, due, options) # ts) hk =
     run_due w h now ts (if due \<le> now then run_timer w h t hk else hk)"

definition elapse :: "real \<Rightarrow> real \<Rightarrow> nat \<Rightarrow> hook \<Rightarrow> hook" where
  "elapse w h now hk = run_due w h now (debounce_timers hk) hk"

text \<open>Calls of \<open>fireConfetti\<close>, each with its time and its options, in the order given.\<close>

fun calls :: "real \<Rightarrow> real \<Rightarrow> (nat \<times> ConfettiOptions option) list \<Rightarrow> hook \<Rightarrow> hook" where
  "calls w h [] hk = hk"
| "calls w h ((now, options) # cs) hk =
     calls w h cs (fireConfetti now options (elapse w h now hk))"

text \<open>One debounce timer is pending, and \<open>debounceTimerRef\<close> holds it.\<close>

definition waiting :: "hook \<Rightarrow> nat \<Rightarrow> ConfettiOptions option \<Rightarrow> bool" where
  "waiting hk due options =
     (case debounceTimerRef hk of
        None \<Rightarrow> False
      | Some t \<Rightarrow> t \<noteq> 0 \<and> debounce_timers hk = [(t, due, options)] \<and> 0 < next_timer hk)"

section \<open>Responsive scaling\<close>

lemma Math_round_int: "Math_round (of_int n) = of_int n"
proof -
  have "\<lfloor>real_of_int n + 1 / 2\<rfloor> = n"
    by (rule floor_unique) simp_all
  then show ?thesis
    by (simp add: Math_round_def)
qed

lemma avgScale_baseline: "avgScale 1200 800 = 1"
  by (simp add: avgScale_def)

lemma updateScalingFactors_fields:
  "sf_duration (updateScalingFactors w h options) =
     min (Math_round (sf_duration (scalingFactors_init options) * avgScale w h))
       (sf_duration (scalingFactors_init options))"
  "sf_particleCount (updateScalingFactors w h options) =
     min (Math_round (sf_particleCount (scalingFactors_init options) * avgScale w h))
       (sf_particleCount (scalingFactors_init options))"
  "sf_size (updateScalingFactors w h options) =
     min (Math_round (sf_size (scalingFactors_init options) * avgScale w h))
       (sf_size (scalingFactors_init options))"
  "sf_spread (updateScalingFactors w h options) =
     min (Math_round (sf_spread (scalingFactors_init options) * avgScale w h))
       (sf_spread (scalingFactors_init options))"
  "sf_startVelocity (updateScalingFactors w h options) =
     min (Math_round (sf_startVelocity (scalingFactors_init options) * avgScale w h))
       (sf_startVelocity (scalingFactors_init options))"
  by (simp_all add: updateScalingFactors_def Let_def)

lemma min_round_baseline: "v \<in> \<int> \<Longrightarrow> min (Math_round v) v = v"
  by (auto elim!: Ints_cases simp: Math_round_int)

text \<open>
  Claim C5, as the code has it. For every window and every options, each of the five
  fields of \<open>updateScalingFactors\<close> is \<open>min (round (v * avgScale)) v\<close>, where \<open>v\<close> is the
  option or its default and \<open>avgScale = (w / 1200 + h / 800) / 2\<close>; so no field is
  above \<open>v\<close>. On a window of 1200 by 800 a field whose \<open>v\<close> is an integer keeps it.
\<close>

theorem scaling_shrinks:
  "(let v = scalingFactors_init options;
        sf = updateScalingFactors w h options;
        s = (w / 1200 + h / 800) / 2
    in sf_duration sf = min (Math_round (sf_duration v * s)) (sf_duration v) \<and>
       sf_particleCount sf = min (Math_round (sf_particleCount v * s)) (sf_particleCount v) \<and>
       sf_size sf = min (Math_round (sf_size v * s)) (sf_size v) \<and>
       sf_spread sf = min (Math_round (sf_spread v * s)) (sf_spread v) \<and>
       sf_startVelocity sf = min (Math_round (sf_startVelocity v * s)) (sf_startVelocity v) \<and>
       sf_duration sf \<le> sf_duration v \<and>
       sf_particleCount sf \<le> sf_particleCount v \<and>
       sf_size sf \<le> sf_size v \<and>
       sf_spread sf \<le> sf_spread v \<and>
       sf_startVelocity sf \<le> sf_startVelocity v) \<and>
   (let v = scalingFactors_init options;
        sf = updateScalingFactors 1200 800 options
    in (sf_duration v \<in> \<int> \<longrightarrow> sf_duration sf = sf_duration v) \<and>
       (sf_particleCount v \<in> \<int> \<longrightarrow> sf_particleCount sf = sf_particleCount v) \<and>
       (sf_size v \<in> \<int> \<longrightarrow> sf_size sf = sf_size v) \<and>
       (sf_spread v \<in> \<int> \<longrightarrow> sf_spread sf = sf_spread v) \<and>
       (sf_startVelocity v \<in> \<int> \<longrightarrow> sf_startVelocity sf = sf_startVelocity v))"
  unfolding Let_def updateScalingFactors_fields avgScale_baseline
  by (simp add: min_round_baseline avgScale_def)

text \<open>
  The second scenario of the specification: 300 particles on a window of 600 by 400
  become 150, and the defaults on 1200 by 800 stay as they are.
\<close>

theorem scaling_shrinks_witness:
  "sf_particleCount (updateScalingFactors 600 400
      (Some (no_options\<lparr>opt_particleCount := Some 300, opt_bounceCount := Some 1\<rparr>))) = 150 \<and>
   sf_duration (scalingFactors_init None) \<in> \<int> \<and>
   sf_particleCount (scalingFactors_init None) \<in> \<int> \<and>
   sf_size (scalingFactors_init None) \<in> \<int> \<and>
   sf_spread (scalingFactors_init None) \<in> \<int> \<and>
   sf_startVelocity (scalingFactors_init None) \<in> \<int> \<and>
   updateScalingFactors 1200 800 None = scalingFactors_init None \<and>
   sf_duration (updateScalingFactors 1200 800 None) = 2000 \<and>
   sf_particleCount (updateScalingFactors 1200 800 None) = 150"
proof -
  let ?o = "Some (no_options\<lparr>opt_particleCount := Some 300, opt_bounceCount := Some 1\<rparr>)"
  have v: "scalingFactors_init None =
      \<lparr>sf_duration = 2000, sf_particleCount = 150, sf_size = 15, sf_spread = 70,
       sf_startVelocity = 25\<rparr>"
    by (simp add: scalingFactors_init_def no_options_def)
  have r: "Math_round 150 = 150"
    by (simp add: Math_round_def)
  have "sf_particleCount (scalingFactors_init ?o) = 300"
    by (simp add: scalingFactors_init_def no_options_def)
  then have a: "sf_particleCount (updateScalingFactors 600 400 ?o) = 150"
    using scaling_shrinks [of ?o 600 400] by (simp add: Let_def r)
  have b: "updateScalingFactors 1200 800 None = scalingFactors_init None"
    using scaling_shrinks [of None 1200 800] by (simp add: Let_def v)
  show ?thesis
    by (simp add: a b) (simp add: v)
qed

text \<open>
  Claim C5 as it is worded says that on 1200 by 800 every field is unchanged. A size of
  12.3 is rounded to 12 there.
\<close>

theorem scaling_unchanged_counterexample:
  "sf_size (updateScalingFactors 1200 800 (Some (no_options\<lparr>opt_size := Some 12.3\<rparr>))) = 12 \<and>
   sf_size (scalingFactors_init (Some (no_options\<lparr>opt_size := Some 12.3\<rparr>))) = 12.3"
  by (simp add: updateScalingFactors_def scalingFactors_init_def avgScale_def no_options_def
      Math_round_def Let_def)

section \<open>Defaults\<close>

text \<open>
  Claim C4 at the call \<open>fireConfetti()\<close> on a window of 1200 by 800. The hook hands the
  constructor a size of 15, its own default, where the constructor alone takes 12.
\<close>

theorem hook_default_size:
  "cfg_size (ConfettiBurst_constructor (Some (baseOptions 1200 800 None))) = 15 \<and>
   cfg_size (ConfettiBurst_constructor None) = 12"
  by (simp add: ConfettiBurst_constructor_def baseOptions_def updateScalingFactors_def
      scalingFactors_init_def avgScale_def no_options_def Math_round_def Let_def)

section \<open>Fade-out\<close>

lemma fade_spec_antimono: "p \<le> q \<Longrightarrow> fade_spec q \<le> fade_spec p"
  by (simp add: fade_spec_def)

lemma applyFadeOut_fade_spec:
  "applyFadeOut timeLeft duration = fade_spec (1 - timeLeft / duration)"
  unfolding applyFadeOut_def fade_spec_def Let_def
  by (simp only: not_le [symmetric] if_not_P) auto

lemma applyFadeOut_mono:
  assumes "0 < duration" "t1 \<le> t2"
  shows "applyFadeOut t1 duration \<le> applyFadeOut t2 duration"
proof -
  have "t1 / duration \<le> t2 / duration"
    using assms by (simp add: divide_right_mono)
  then have "1 - t2 / duration \<le> 1 - t1 / duration"
    by simp
  then show ?thesis
    unfolding applyFadeOut_fade_spec by (rule fade_spec_antimono)
qed

section \<open>One frame of one particle\<close>

lemma apply_styles_motion [simp]:
  "p_x (apply_styles t d m) = p_x m"
  "p_vx (apply_styles t d m) = p_vx m"
  "p_y (apply_styles t d m) = p_y m"
  "p_vy (apply_styles t d m) = p_vy m"
  "p_bounces (apply_styles t d m) = p_bounces m"
  "p_isSettling (apply_styles t d m) = p_isSettling m"
  "p_endTime (apply_styles t d m) = p_endTime m"
  by (simp_all add: apply_styles_def Let_def)

lemma collide_side_vertical [simp]:
  "p_y (collide_side w m) = p_y m"
  "p_vy (collide_side w m) = p_vy m"
  "p_bounces (collide_side w m) = p_bounces m"
  "p_isSettling (collide_side w m) = p_isSettling m"
  "p_endTime (collide_side w m) = p_endTime m"
  by (simp_all add: collide_side_def split: prod.splits)

lemma collide_side_left:
  "p_x m \<le> 0 \<Longrightarrow> p_vx m < 0 \<Longrightarrow>
   p_x (collide_side w m) = 0 \<and> p_vx (collide_side w m) = - p_vx m * 0.8"
  by (simp add: collide_side_def handleSideBounce_def)

lemma collide_side_right:
  "p_x m \<ge> w \<Longrightarrow> p_vx m > 0 \<Longrightarrow>
   p_x (collide_side w m) = w \<and> p_vx (collide_side w m) = - p_vx m * 0.8"
  by (simp add: collide_side_def handleSideBounce_def)

lemma collide_vertical_horizontal [simp]:
  "p_x (collide_top bc m) = p_x m"
  "p_vx (collide_top bc m) = p_vx m"
  "p_x (collide_bottom h bc m) = p_x m"
  "p_vx (collide_bottom h bc m) = p_vx m"
  "p_endTime (collide_top bc m) = p_endTime m"
  "p_endTime (collide_bottom h bc m) = p_endTime m"
  by (simp_all add: collide_top_def collide_bottom_def split: prod.splits)

lemma apply_physics_bounces [simp]:
  "p_bounces (apply_physics m) = p_bounces m"
  "p_isSettling (apply_physics m) = p_isSettling m"
  "p_endTime (apply_physics m) = p_endTime m"
  by (simp_all add: apply_physics_def Let_def)

text \<open>
  Claim C7. In a frame, let \<open>a\<close> be the closure after the physics and \<open>v\<close> after the top
  and bottom handlers. If \<open>a\<close> is at or left of 0 moving left, the frame ends with
  \<open>x = 0\<close> and \<open>vx = - vx * 0.8\<close>; at or right of the window's width moving right, with
  \<open>x\<close> the width and \<open>vx = - vx * 0.8\<close>. The side handler leaves the counter and the
  settling flag as \<open>v\<close> has them, and so does the frame.
\<close>

theorem side_bounce:
  "(let a = apply_physics m;
        v = collide_bottom h bounceCount (collide_top bounceCount a);
        r = update_motion w h bounceCount duration timeLeft m
    in (p_x a \<le> 0 \<and> p_vx a < 0 \<longrightarrow> p_x r = 0 \<and> p_vx r = - p_vx a * 0.8) \<and>
       (p_x a \<ge> w \<and> p_vx a > 0 \<longrightarrow> p_x r = w \<and> p_vx r = - p_vx a * 0.8) \<and>
       p_bounces r = p_bounces v \<and> p_isSettling r = p_isSettling v \<and>
       p_bounces (collide_side w v) = p_bounces v \<and>
       p_isSettling (collide_side w v) = p_isSettling v)"
  by (simp add: Let_def update_motion_def handle_collisions_def collide_side_left
      collide_side_right)

theorem side_bounce_witness:
  "p_x (apply_physics sample_motion) \<le> 0 \<and> p_vx (apply_physics sample_motion) < 0 \<and>
   p_x (update_motion 1200 800 2 2000 1000 sample_motion) = 0 \<and>
   p_vx (update_motion 1200 800 2 2000 1000 sample_motion) = 4 \<and>
   p_bounces (update_motion 1200 800 2 2000 1000 sample_motion) = 0 \<and>
   \<not> p_isSettling (update_motion 1200 800 2 2000 1000 sample_motion) \<and>
   p_x (apply_physics (sample_motion\<lparr>p_x := 1199, p_vx := 5\<rparr>)) \<ge> 1200 \<and>
   p_vx (apply_physics (sample_motion\<lparr>p_x := 1199, p_vx := 5\<rparr>)) > 0 \<and>
   p_x (update_motion 1200 800 2 2000 1000 (sample_motion\<lparr>p_x := 1199, p_vx := 5\<rparr>)) = 1200 \<and>
   p_vx (update_motion 1200 800 2 2000 1000 (sample_motion\<lparr>p_x := 1199, p_vx := 5\<rparr>)) = - 4"
  using side_bounce [where m = sample_motion and w = 1200 and h = 800
        and bounceCount = 2 and duration = 2000 and timeLeft = 1000]
    side_bounce [where m = "sample_motion\<lparr>p_x := 1199, p_vx := 5\<rparr>" and w = 1200
        and h = 800 and bounceCount = 2 and duration = 2000 and timeLeft = 1000]
  by (simp add: Let_def sample_motion_def apply_physics_def collide_top_def collide_bottom_def
      handleTopBounce_def handleBottomBounce_def)

section \<open>The settling flag\<close>





lemma collide_top_bounces_mono: "p_bounces m \<le> p_bounces (collide_top bc m)"
  by (simp add: collide_top_def handleTopBounce_def Let_def)

lemma collide_bottom_bounces_mono: "p_bounces m \<le> p_bounces (collide_bottom h bc m)"
  by (simp add: collide_bottom_def handleBottomBounce_def Let_def)

lemma update_motion_bounces_mono: "p_bounces m \<le> p_bounces (update_motion w h bc d t m)"
proof -
  have "p_bounces (apply_physics m) \<le> p_bounces (collide_top bc (apply_physics m))"
    by (rule collide_top_bounces_mono)
  also have "\<dots> \<le> p_bounces (collide_bottom h bc (collide_top bc (apply_physics m)))"
    by (rule collide_bottom_bounces_mono)
  finally show ?thesis
    by (simp add: update_motion_def handle_collisions_def)
qed

lemma update_motion_endTime [simp]: "p_endTime (update_motion w h bc d t m) = p_endTime m"
  by (simp add: update_motion_def handle_collisions_def)






lemma run_bounces_mono: "p_bounces m \<le> p_bounces (run_updates bc d fs m)"
proof (induction fs arbitrary: m)
  case Nil
  then show ?case by simp
next
  case (Cons f fs)
  obtain now w h where f: "f = (now, w, h)"
    by (cases f)
  have "p_bounces m \<le> p_bounces (update_motion w h bc d (p_endTime m - now) m)"
    by (rule update_motion_bounces_mono)
  also have "\<dots> \<le> p_bounces (run_updates bc d fs (update_motion w h bc d (p_endTime m - now) m))"
    by (rule Cons.IH)
  finally show ?case
    by (simp add: f Let_def)
qed





section \<open>Creating the particles\<close>

lemmas host_defs = Math_random_def createElement_def requestAnimationFrame_def
  cancelAnimationFrame_def setTimeout_def clearTimeout_def

lemma createParticles_body_fields [simp]:
  "particles (fst (createParticles_body now sp cx sy (s, fr))) = particles s @ [elements_created s]"
  "snd (createParticles_body now sp cx sy (s, fr)) = fr @ [elements_created s]"
  "elements_created (fst (createParticles_body now sp cx sy (s, fr))) = Suc (elements_created s)"
  "pending_frames (fst (createParticles_body now sp cx sy (s, fr))) =
     pending_frames s @ [(next_frame s, elements_created s)]"
  "animationIds (fst (createParticles_body now sp cx sy (s, fr))) =
     AList.update (elements_created s) (next_frame s) (animationIds s)"
  "outside_loop (fst (createParticles_body now sp cx sy (s, fr))) = outside_loop s"
  by (simp_all add: createParticles_body_def createParticle_def animateParticle_def host_defs
      outside_loop_def Let_def split: prod.splits)

declare createParticles_loop.simps [simp del]

lemma turns_Suc: "real i < pc \<Longrightarrow> nat \<lceil>pc\<rceil> - i = Suc (nat \<lceil>pc\<rceil> - Suc i)"
  by linarith

lemma turns_none: "\<not> real i < pc \<Longrightarrow> nat \<lceil>pc\<rceil> - i = 0"
  by linarith

text \<open>The loop that starts at \<open>i\<close> is its body, \<open>\<lceil>particleCount\<rceil> - i\<close> times.\<close>

lemma loop_funpow:
  "createParticles_loop i pc now sp cx sy sf =
     ((createParticles_body now sp cx sy) ^^ (nat \<lceil>pc\<rceil> - i)) sf"
proof (induction i pc now sp cx sy sf rule: createParticles_loop.induct)
  case (1 i pc now sp cx sy sf)
  show ?case
  proof (cases "real i < pc")
    case True
    have "createParticles_loop i pc now sp cx sy sf =
        createParticles_loop (Suc i) pc now sp cx sy (createParticles_body now sp cx sy sf)"
      using True by (subst createParticles_loop.simps) simp
    also have "\<dots> = ((createParticles_body now sp cx sy) ^^ (nat \<lceil>pc\<rceil> - Suc i))
        (createParticles_body now sp cx sy sf)"
      by (rule "1.IH" [OF True])
    also have "\<dots> = ((createParticles_body now sp cx sy) ^^ Suc (nat \<lceil>pc\<rceil> - Suc i)) sf"
      by (simp only: funpow_Suc_right o_apply)
    finally show ?thesis
      by (simp only: turns_Suc [OF True])
  next
    case False
    then show ?thesis
      by (subst createParticles_loop.simps) (simp add: turns_none)
  qed
qed

lemma update_fresh: "k \<notin> fst ` set al \<Longrightarrow> AList.update k v al = al @ [(k, v)]"
  by (induction al) auto

lemma body_drivers_match:
  assumes "drivers_match (fst sf)"
  shows "drivers_match (fst (createParticles_body now sp cx sy sf))"
proof -
  obtain s fr where sf: "sf = (s, fr)"
    by (cases sf)
  have "elements_created s \<notin> set (particles s)"
    using assms by (auto simp: sf drivers_match_def list_all_iff)
  then have "elements_created s \<notin> fst ` set (animationIds s)"
    using assms by (simp add: sf drivers_match_def flip: set_map)
  then have "AList.update (elements_created s) (next_frame s) (animationIds s) =
      animationIds s @ [(elements_created s, next_frame s)]"
    by (rule update_fresh)
  then show ?thesis
    using assms by (auto simp: sf drivers_match_def list_all_iff)
qed

lemma turns_drivers_match:
  "drivers_match (fst sf) \<Longrightarrow>
   drivers_match (fst (((createParticles_body now sp cx sy) ^^ k) sf))"
  by (induction k) (simp_all add: body_drivers_match)

lemma turns_outside:
  "outside_loop (fst (((createParticles_body now sp cx sy) ^^ k) sf)) = outside_loop (fst sf)"
proof (induction k)
  case 0
  show ?case by simp
next
  case (Suc k)
  obtain s fr where "((createParticles_body now sp cx sy) ^^ k) sf = (s, fr)"
    by (cases "((createParticles_body now sp cx sy) ^^ k) sf")
  then show ?case
    using Suc.IH by simp
qed

lemma turns_particles:
  "elements_created (fst (((createParticles_body now sp cx sy) ^^ k) sf)) =
     elements_created (fst sf) + k \<and>
   particles (fst (((createParticles_body now sp cx sy) ^^ k) sf)) =
     particles (fst sf) @ [elements_created (fst sf) ..< elements_created (fst sf) + k] \<and>
   snd (((createParticles_body now sp cx sy) ^^ k) sf) =
     snd sf @ [elements_created (fst sf) ..< elements_created (fst sf) + k]"
proof (induction k)
  case 0
  show ?case by simp
next
  case (Suc k)
  obtain s fr where "((createParticles_body now sp cx sy) ^^ k) sf = (s, fr)"
    by (cases "((createParticles_body now sp cx sy) ^^ k) sf")
  then show ?case
    using Suc.IH by simp
qed

text \<open>\<open>createParticles\<close> on a burst that has its container and no particle yet.\<close>

lemma createContainer_fields:
  "container (createContainer s) = Some (elements_created s)"
  "body_children (createContainer s) = body_children s @ [elements_created s]"
  "elements_created (createContainer s) = Suc (elements_created s)"
  "particles (createContainer s) = particles s"
  "animationIds (createContainer s) = animationIds s"
  "pending_frames (createContainer s) = pending_frames s"
  "config (createContainer s) = config s"
  "child_nodes (createContainer s) = child_nodes s"
  "pending_timeouts (createContainer s) = pending_timeouts s"
  "cleanupTimeoutId (createContainer s) = cleanupTimeoutId s"
  "next_timeout (createContainer s) = next_timeout s"
  "onStop_calls (createContainer s) = onStop_calls s"
  by (simp_all add: createContainer_def createElement_def)

text \<open>\<open>createParticles\<close> is \<open>turns\<close> turns of the body from the state that has drawn \<open>centerX\<close>.\<close>

lemma draw_centerX_fields:
  "particles (snd (draw_centerX s)) = particles s"
  "elements_created (snd (draw_centerX s)) = elements_created s"
  "outside_loop (snd (draw_centerX s)) = outside_loop s"
  "drivers_match (snd (draw_centerX s)) = drivers_match s"
  "motions (snd (draw_centerX s)) = motions s"
  "animationIds (snd (draw_centerX s)) = animationIds s"
  "pending_frames (snd (draw_centerX s)) = pending_frames s"
  "next_frame (snd (draw_centerX s)) = next_frame s"
  "random_seq (snd (draw_centerX s)) = random_seq s"
  by (simp_all add: draw_centerX_def Math_random_def outside_loop_def drivers_match_def)

lemma createParticles_turns:
  assumes "container s = Some c"
  shows "createParticles now s =
     (let r = ((createParticles_body now (cfg_spread (config s)) (fst (draw_centerX s))
                 (window_innerHeight s + cfg_spread (config s))) ^^ turns s)
                (snd (draw_centerX s), [])
      in (fst r)\<lparr>child_nodes := (child_nodes (fst r))(c := child_nodes (fst r) c @ snd r)\<rparr>)"
proof -
  obtain cx s1 where d: "draw_centerX s = (cx, s1)"
    by (cases "draw_centerX s")
  have "window_innerHeight s1 = window_innerHeight s"
    using draw_centerX_fields(3) [of s] by (simp add: outside_loop_def d)
  then show ?thesis
    by (simp add: createParticles_def assms Let_def loop_funpow turns_def d split: prod.splits)
qed

lemma createParticles_facts:
  assumes c: "container s = Some c"
  shows "particles (createParticles now s) =
           particles s @ [elements_created s ..< elements_created s + turns s]"
    and "child_nodes (createParticles now s) c =
           child_nodes s c @ [elements_created s ..< elements_created s + turns s]"
    and "drivers_match s \<Longrightarrow> drivers_match (createParticles now s)"
    and "container (createParticles now s) = Some c"
    and "body_children (createParticles now s) = body_children s"
    and "config (createParticles now s) = config s"
    and "pending_timeouts (createParticles now s) = pending_timeouts s"
    and "cleanupTimeoutId (createParticles now s) = cleanupTimeoutId s"
    and "next_timeout (createParticles now s) = next_timeout s"
    and "onStop_calls (createParticles now s) = onStop_calls s"
    and "window_innerWidth (createParticles now s) = window_innerWidth s"
    and "window_innerHeight (createParticles now s) = window_innerHeight s"
proof -
  define r where "r = ((createParticles_body now (cfg_spread (config s)) (fst (draw_centerX s))
      (window_innerHeight s + cfg_spread (config s))) ^^ turns s) (snd (draw_centerX s), [])"
  note s1 = draw_centerX_fields [of s]
  have eq: "createParticles now s =
      (fst r)\<lparr>child_nodes := (child_nodes (fst r))(c := child_nodes (fst r) c @ snd r)\<rparr>"
    by (simp add: createParticles_turns [OF c] Let_def r_def)
  have out: "outside_loop (fst r) = outside_loop s"
    by (simp add: r_def turns_outside s1)
  have ps: "particles (fst r) = particles s @ [elements_created s ..< elements_created s + turns s]"
      "snd r = [elements_created s ..< elements_created s + turns s]"
    using turns_particles [where now = now and sp = "cfg_spread (config s)"
        and cx = "fst (draw_centerX s)"
        and sy = "window_innerHeight s + cfg_spread (config s)" and k = "turns s"
        and sf = "(snd (draw_centerX s), [])"]
    by (simp_all add: r_def s1)
  show "particles (createParticles now s) =
      particles s @ [elements_created s ..< elements_created s + turns s]"
    by (simp add: eq ps)
  show "child_nodes (createParticles now s) c =
      child_nodes s c @ [elements_created s ..< elements_created s + turns s]"
    using out by (simp add: eq ps outside_loop_def)
  show "drivers_match (createParticles now s)" if "drivers_match s"
  proof -
    have "drivers_match (fst r)"
      unfolding r_def by (rule turns_drivers_match) (simp add: s1 that)
    then show ?thesis
      by (simp add: eq drivers_match_def)
  qed
  show "container (createParticles now s) = Some c"
    using out by (simp add: eq outside_loop_def c)
  show "body_children (createParticles now s) = body_children s"
    using out by (simp add: eq outside_loop_def)
  show "config (createParticles now s) = config s"
    using out by (simp add: eq outside_loop_def)
  show "pending_timeouts (createParticles now s) = pending_timeouts s"
    using out by (simp add: eq outside_loop_def)
  show "cleanupTimeoutId (createParticles now s) = cleanupTimeoutId s"
    using out by (simp add: eq outside_loop_def)
  show "next_timeout (createParticles now s) = next_timeout s"
    using out by (simp add: eq outside_loop_def)
  show "onStop_calls (createParticles now s) = onStop_calls s"
    using out by (simp add: eq outside_loop_def)
  show "window_innerWidth (createParticles now s) = window_innerWidth s"
    using out by (simp add: eq outside_loop_def)
  show "window_innerHeight (createParticles now s) = window_innerHeight s"
    using out by (simp add: eq outside_loop_def)
qed

section \<open>Firing and stopping\<close>

lemma fold_cancel:
  "fold cancelAnimationFrame ids s = s\<lparr>pending_frames := fold AList.delete ids (pending_frames s)\<rparr>"
  by (induction ids arbitrary: s) (simp_all add: cancelAnimationFrame_def)

lemma fold_delete_keys: "fst ` set (fold AList.delete ids al) = fst ` set al - set ids"
proof (induction ids arbitrary: al)
  case Nil
  show ?case by simp
next
  case (Cons k ids)
  have "fst ` set (AList.delete k al) = fst ` set al - {k}"
    using delete_keys [of k al] by (metis set_map set_removeAll)
  then show ?case
    by (auto simp: Cons.IH)
qed

lemma fold_delete_all:
  assumes "fst ` set al \<subseteq> set ids"
  shows "fold AList.delete ids al = []"
proof -
  have "fst ` set (fold AList.delete ids al) = {}"
    using assms by (simp add: fold_delete_keys)
  then show ?thesis
    by simp
qed

lemma cleanup_fields:
  "particles (cleanup s) = []"
  "animationIds (cleanup s) = []"
  "container (cleanup s) = None"
  "cleanupTimeoutId (cleanup s) = None"
  "config (cleanup s) = config s"
  "onStop_calls (cleanup s) = onStop_calls s @ [cfg_onStop (config s)]"
  "pending_frames (cleanup s) = fold AList.delete (map snd (animationIds s)) (pending_frames s)"
  "pending_timeouts (cleanup s) =
     (case cleanupTimeoutId s of
        Some t \<Rightarrow> AList.delete t (pending_timeouts s) | None \<Rightarrow> pending_timeouts s)"
  "body_children (cleanup s) =
     (case container s of Some c \<Rightarrow> removeAll c (body_children s) | None \<Rightarrow> body_children s)"
  by (simp_all add: cleanup_def clearTimeout_def fold_cancel Let_def split: option.splits)

text \<open>A burst that \<open>cleanup\<close> has left: nothing of it is in the document or scheduled.\<close>

lemma cleanup_again:
  assumes "cleanupTimeoutId s = None" "container s = None" "particles s = []"
    "animationIds s = []"
  shows "cleanup s = s\<lparr>onStop_calls := onStop_calls s @ [cfg_onStop (config s)]\<rparr>"
  using assms by (simp add: cleanup_def Let_def)

lemma cleanup_twice:
  "cleanup (cleanup s) =
     (cleanup s)\<lparr>onStop_calls := onStop_calls s @ [cfg_onStop (config s), cfg_onStop (config s)]\<rparr>"
  by (simp add: cleanup_again cleanup_fields)

lemma cleanup_frames:
  assumes "drivers_match s"
  shows "pending_frames (cleanup s) = []"
proof -
  have "fst ` set (pending_frames s) \<subseteq> set (map snd (animationIds s))"
    using assms by (force simp: drivers_match_def)
  then show ?thesis
    by (simp add: cleanup_fields fold_delete_all)
qed

lemma scheduleCleanup_fields:
  "particles (scheduleCleanup s) = particles s"
  "animationIds (scheduleCleanup s) = animationIds s"
  "pending_frames (scheduleCleanup s) = pending_frames s"
  "elements_created (scheduleCleanup s) = elements_created s"
  "container (scheduleCleanup s) = container s"
  "body_children (scheduleCleanup s) = body_children s"
  "child_nodes (scheduleCleanup s) = child_nodes s"
  "config (scheduleCleanup s) = config s"
  "onStop_calls (scheduleCleanup s) = onStop_calls s"
  "cleanupTimeoutId (scheduleCleanup s) =
     Some (next_timeout s)"
  "pending_timeouts (scheduleCleanup s) =
     (case cleanupTimeoutId s of
        Some t \<Rightarrow> AList.delete t (pending_timeouts s) | None \<Rightarrow> pending_timeouts s) @
     [(next_timeout s, cfg_duration (config s))]"
  by (simp_all add: scheduleCleanup_def clearTimeout_def setTimeout_def Let_def
      split: option.splits)

lemma new_burst_fields:
  "particles (new_burst options w h rnd) = []"
  "animationIds (new_burst options w h rnd) = []"
  "pending_frames (new_burst options w h rnd) = []"
  "pending_timeouts (new_burst options w h rnd) = []"
  "body_children (new_burst options w h rnd) = []"
  "child_nodes (new_burst options w h rnd) = (\<lambda>_. [])"
  "elements_created (new_burst options w h rnd) = 0"
  "next_timeout (new_burst options w h rnd) = 1"
  "cleanupTimeoutId (new_burst options w h rnd) = None"
  "container (new_burst options w h rnd) = None"
  "onStop_calls (new_burst options w h rnd) = []"
  "config (new_burst options w h rnd) = ConfettiBurst_constructor options"
  by (simp_all add: new_burst_def)

text \<open>A burst just fired, in a document that was empty.\<close>

lemma fire_new_burst:
  fixes options w h rnd now
  defines "s \<equiv> fire now (new_burst options w h rnd)"
  defines "n \<equiv> nat \<lceil>cfg_particleCount (ConfettiBurst_constructor options)\<rceil> - 1"
  shows "particles s = [1 ..< 1 + n]"
    and "child_nodes s 0 = [1 ..< 1 + n]"
    and "map fst (animationIds s) = [1 ..< 1 + n]"
    and "drivers_match s"
    and "container s = Some 0"
    and "body_children s = [0]"
    and "cleanupTimeoutId s = Some 1"
    and "pending_timeouts s = [(1, cfg_duration (ConfettiBurst_constructor options))]"
    and "onStop_calls s = []"
    and "config s = ConfettiBurst_constructor options"
proof -
  let ?s0 = "new_burst options w h rnd"
  let ?s1 = "createContainer ?s0"
  let ?s2 = "createParticles now ?s1"
  have c: "container ?s1 = Some 0"
    by (simp add: createContainer_fields new_burst_fields)
  have t: "turns ?s1 = n"
    by (simp add: turns_def n_def createContainer_fields new_burst_fields)
  have dm: "drivers_match ?s1"
    by (simp add: drivers_match_def createContainer_fields new_burst_fields)
  note cp = createParticles_facts [OF c, of now]
  have s: "s = scheduleCleanup ?s2"
    by (simp add: s_def fire_def)
  show p: "particles s = [1 ..< 1 + n]"
    by (simp add: s scheduleCleanup_fields cp t createContainer_fields new_burst_fields)
  show "child_nodes s 0 = [1 ..< 1 + n]"
    by (simp add: s scheduleCleanup_fields cp t createContainer_fields new_burst_fields)
  show d: "drivers_match s"
    using cp(3) [OF dm]
    by (simp add: s drivers_match_def scheduleCleanup_fields)
  show "map fst (animationIds s) = [1 ..< 1 + n]"
    using d p by (simp add: drivers_match_def)
  show "container s = Some 0"
    by (simp add: s scheduleCleanup_fields cp)
  show "body_children s = [0]"
    by (simp add: s scheduleCleanup_fields cp createContainer_fields new_burst_fields)
  show "cleanupTimeoutId s = Some 1"
    by (simp add: s scheduleCleanup_fields cp createContainer_fields new_burst_fields)
  show "pending_timeouts s = [(1, cfg_duration (ConfettiBurst_constructor options))]"
    by (simp add: s scheduleCleanup_fields cp createContainer_fields new_burst_fields)
  show "onStop_calls s = []"
    by (simp add: s scheduleCleanup_fields cp createContainer_fields new_burst_fields)
  show "config s = ConfettiBurst_constructor options"
    by (simp add: s scheduleCleanup_fields cp createContainer_fields new_burst_fields)
qed

text \<open>The definitions that evaluate a burst on given options.\<close>

lemmas burst_defs = fire_def new_burst_def createContainer_def createParticles_def
  draw_centerX_def createParticles_loop.simps createParticles_body_def createParticle_def animateParticle_def
  scheduleCleanup_def host_defs ConfettiBurst_constructor_def no_options_def Let_def
  animateParticle_init_def

text \<open>
  Claim C1 at the default options: \<open>particleCount\<close> is 150 and \<open>fire\<close> makes 149
  particles, drivers and children of the container. With a \<open>particleCount\<close> of 2 it
  makes one particle, with 1 or 0 none.
\<close>

theorem fire_default_particles:
  "(let s = fire 0 (new_burst None 1200 800 (\<lambda>_. 1 / 2))
    in cfg_particleCount (config s) = 150 \<and> length (particles s) = 149 \<and>
       length (animationIds s) = 149 \<and> length (child_nodes s 0) = 149) \<and>
   particles (fire 0 (new_burst (Some (no_options\<lparr>opt_particleCount := Some 2\<rparr>))
      1200 800 (\<lambda>_. 1 / 2))) = [1] \<and>
   particles (fire 0 (new_burst (Some (no_options\<lparr>opt_particleCount := Some 1\<rparr>))
      1200 800 (\<lambda>_. 1 / 2))) = [] \<and>
   particles (fire 0 (new_burst (Some (no_options\<lparr>opt_particleCount := Some 0\<rparr>))
      1200 800 (\<lambda>_. 1 / 2))) = []"
proof -
  have pc: "cfg_particleCount (ConfettiBurst_constructor None) = 150"
      "cfg_particleCount (ConfettiBurst_constructor (Some (no_options\<lparr>opt_particleCount := Some v\<rparr>))) = v"
    for v
    by (simp_all add: ConfettiBurst_constructor_def no_options_def)
  have n: "nat \<lceil>150 :: real\<rceil> - 1 = 149" "nat \<lceil>2 :: real\<rceil> - 1 = 1"
      "nat \<lceil>1 :: real\<rceil> - 1 = 0" "nat \<lceil>0 :: real\<rceil> - 1 = 0"
    by simp_all
  have "length (map fst (animationIds (fire 0 (new_burst None 1200 800 (\<lambda>_. 1 / 2))))) = 149"
    by (simp only: fire_new_burst pc n) simp
  then have "length (animationIds (fire 0 (new_burst None 1200 800 (\<lambda>_. 1 / 2)))) = 149"
    by (simp only: length_map)
  then show ?thesis
    by (simp add: fire_new_burst pc Let_def)
qed

text \<open>
  Claim C3, as the code has it. After \<open>fire\<close> and \<open>stop\<close> on a new burst the particle
  collection and the driver mapping are empty, no animation frame and no timeout is
  pending, the container is forgotten and out of the document, and the completion
  callback was called once. A second \<open>stop\<close> changes nothing of that and calls the
  completion callback once more.
\<close>

theorem fire_stop:
  "(let s0 = new_burst options w h rnd;
        s1 = stop (fire now s0);
        s2 = stop s1
    in particles s1 = [] \<and> animationIds s1 = [] \<and> pending_frames s1 = [] \<and>
       container s1 = None \<and> body_children s1 = [] \<and>
       cleanupTimeoutId s1 = None \<and> pending_timeouts s1 = [] \<and>
       onStop_calls s1 = [cfg_onStop (config s0)] \<and>
       s2 = s1\<lparr>onStop_calls := [cfg_onStop (config s0), cfg_onStop (config s0)]\<rparr>)"
proof -
  have "pending_frames (cleanup (fire now (new_burst options w h rnd))) = []"
    by (rule cleanup_frames) (rule fire_new_burst)
  then show ?thesis
    by (simp add: Let_def stop_def cleanup_twice cleanup_fields(1-6,8,9) fire_new_burst
        new_burst_fields)
qed

text \<open>
  Claim C3 as it is worded says that the second \<open>stop\<close> does not call the completion
  callback again. It does: the callback of the options is in the log twice.
\<close>

theorem second_stop_counterexample:
  "onStop_calls (stop (stop (fire 0
      (new_burst (Some (no_options\<lparr>opt_onStop := Some (UserCallback 0)\<rparr>)) 1200 800
         (\<lambda>_. 1 / 2))))) = [UserCallback 0, UserCallback 0]"
  by (simp add: stop_def cleanup_fields fire_new_burst)
    (simp add: ConfettiBurst_constructor_def no_options_def)

section \<open>The end of a particle\<close>

text \<open>
  Claim C9. When the time of a particle is up, \<open>update\<close> deletes the particle's entry
  of \<open>animationIds\<close> and nothing else: the state is otherwise the same, so the
  container, the particles, the entries of the others, the pending frames and the
  teardown timer are as before, and no frame is requested for the particle. The
  frame the browser has just run is the only one that leaves the pending ones.
\<close>

theorem expired_update:
  "motions s particle = Some m \<and> p_endTime m - now \<le> 0 \<longrightarrow>
     update now particle s = s\<lparr>animationIds := AList.delete particle (animationIds s)\<rparr> \<and>
     map_of (animationIds (update now particle s)) particle = None \<and>
     (\<forall>q. q \<noteq> particle \<longrightarrow>
        map_of (animationIds (update now particle s)) q = map_of (animationIds s) q) \<and>
     container (update now particle s) = container s \<and>
     particles (update now particle s) = particles s \<and>
     body_children (update now particle s) = body_children s \<and>
     child_nodes (update now particle s) = child_nodes s \<and>
     motions (update now particle s) = motions s \<and>
     pending_frames (update now particle s) = pending_frames s \<and>
     cleanupTimeoutId (update now particle s) = cleanupTimeoutId s \<and>
     pending_timeouts (update now particle s) = pending_timeouts s \<and>
     onStop_calls (update now particle s) = onStop_calls s \<and>
     (map_of (pending_frames s) frameId = Some particle \<longrightarrow>
        run_frame now frameId s =
          s\<lparr>pending_frames := AList.delete frameId (pending_frames s),
            animationIds := AList.delete particle (animationIds s)\<rparr>)"
  by (simp add: update_def run_frame_def Let_def delete_conv')

theorem expired_update_witness:
  "(\<exists>m. motions sample_burst 1 = Some m \<and> p_endTime m - 2000 \<le> 0) \<and>
   animationIds sample_burst = [(1, 1), (2, 2)] \<and>
   animationIds (update 2000 1 sample_burst) = [(2, 2)] \<and>
   particles (update 2000 1 sample_burst) = [1, 2] \<and>
   container (update 2000 1 sample_burst) = Some 0 \<and>
   pending_frames (update 2000 1 sample_burst) = [(1, 1), (2, 2)] \<and>
   cleanupTimeoutId (update 2000 1 sample_burst) = Some 1 \<and>
   map_of (pending_frames sample_burst) 1 = Some 1 \<and>
   pending_frames (run_frame 2000 1 sample_burst) = [(2, 2)] \<and>
   animationIds (run_frame 2000 1 sample_burst) = [(2, 2)]"
proof -
  obtain m where m: "motions sample_burst 1 = Some m" "p_endTime m - 2000 \<le> 0"
    by (simp add: sample_burst_def burst_defs)
  have s: "animationIds sample_burst = [(1, 1), (2, 2)]"
      "pending_frames sample_burst = [(1, 1), (2, 2)]"
      "particles sample_burst = [1, 2]" "container sample_burst = Some 0"
      "cleanupTimeoutId sample_burst = Some 1"
    by (simp_all add: sample_burst_def burst_defs)
  show ?thesis
    using expired_update [of sample_burst 1 m 2000 1] m
    by (auto simp: s)
qed

section \<open>From the closure to the burst\<close>

lemma map_of_fresh_key:
  assumes "list_all (\<lambda>(f, p). f < (n::nat) \<and> P p) al"
  shows "map_of al n = None"
proof -
  have "n \<notin> fst ` set al"
    using assms by (fastforce simp: list_all_iff)
  then show ?thesis
    by (simp add: map_of_eq_None_iff)
qed

lemma pending_sound_iff:
  "pending_sound s \<longleftrightarrow>
     (\<forall>p f. map_of (animationIds s) p = Some f \<longrightarrow> map_of (pending_frames s) f = Some p) \<and>
     (\<forall>f p. (f, p) \<in> set (pending_frames s) \<longrightarrow> f < next_frame s \<and> motions s p \<noteq> None)"
proof -
  have "list_all (\<lambda>p. case map_of al p of None \<Rightarrow> True | Some f \<Rightarrow> map_of fs f = Some p)
          (map fst al) \<longleftrightarrow>
        (\<forall>p f. map_of al p = Some f \<longrightarrow> map_of fs f = Some p)"
    for al :: "(elem \<times> nat) list" and fs :: "(nat \<times> elem) list"
  proof
    assume l: "list_all (\<lambda>p. case map_of al p of None \<Rightarrow> True | Some f \<Rightarrow> map_of fs f = Some p)
        (map fst al)"
    show "\<forall>p f. map_of al p = Some f \<longrightarrow> map_of fs f = Some p"
    proof (intro allI impI)
      fix p f assume pf: "map_of al p = Some f"
      then have "p \<in> set (map fst al)"
        by (metis map_of_eq_None_iff option.distinct(1) set_map)
      with l pf show "map_of fs f = Some p"
        by (auto simp: list_all_iff)
    qed
  next
    assume "\<forall>p f. map_of al p = Some f \<longrightarrow> map_of fs f = Some p"
    then show "list_all (\<lambda>p. case map_of al p of None \<Rightarrow> True | Some f \<Rightarrow> map_of fs f = Some p)
        (map fst al)"
      by (auto simp: list_all_iff split: option.splits)
  qed
  then show ?thesis
    by (auto simp: pending_sound_def list_all_iff)
qed

text \<open>What \<open>update\<close> does to the closure it belongs to, and to the others.\<close>

lemma update_motions_alive:
  assumes "motions s p = Some m" "0 < p_endTime m - now"
  shows "motions (update now p s) =
     (motions s)(p \<mapsto> update_motion (window_innerWidth s) (window_innerHeight s)
        (cfg_bounceCount (config s)) (cfg_duration (config s)) (p_endTime m - now) m)"
  using assms by (simp add: update_def requestAnimationFrame_def Let_def)

lemma update_motions_expired:
  assumes "motions s p = Some m" "p_endTime m - now \<le> 0"
  shows "motions (update now p s) = motions s"
  using assms by (simp add: update_def)

lemma update_constants:
  "config (update now p s) = config s"
  "window_innerWidth (update now p s) = window_innerWidth s"
  "window_innerHeight (update now p s) = window_innerHeight s"
  by (simp_all add: update_def requestAnimationFrame_def Let_def split: option.splits prod.splits)

lemma run_frame_constants:
  "config (run_frame now f s) = config s"
  "window_innerWidth (run_frame now f s) = window_innerWidth s"
  "window_innerHeight (run_frame now f s) = window_innerHeight s"
  by (simp_all add: run_frame_def update_constants split: option.splits)

lemma animate_constants:
  "config (animate now p s) = config s"
  "window_innerWidth (animate now p s) = window_innerWidth s"
  "window_innerHeight (animate now p s) = window_innerHeight s"
  by (simp_all add: animate_def run_frame_constants split: option.splits)


lemma frames_of_constants:
  assumes "window_innerWidth s' = window_innerWidth s" "window_innerHeight s' = window_innerHeight s"
  shows "frames_of p s' evs = frames_of p s evs"
  using assms by (simp add: frames_of_def)

text \<open>One frame of the browser keeps the drivers sound.\<close>

lemma run_frame_sound:
  assumes "pending_sound s"
  shows "pending_sound (run_frame now f s)"
proof (cases "map_of (pending_frames s) f")
  case None
  then show ?thesis
    using assms by (simp add: run_frame_def)
next
  case (Some q)
  note inv = assms [unfolded pending_sound_iff]
  have ids: "map_of (pending_frames s) g = Some p" if "map_of (animationIds s) p = Some g" for p g
    using inv that by blast
  have fr: "g < next_frame s \<and> motions s p \<noteq> None" if "(g, p) \<in> set (pending_frames s)" for p g
    using inv that by blast
  have "(f, q) \<in> set (pending_frames s)"
    using Some by (rule map_of_SomeD)
  then obtain m where m: "motions s q = Some m"
    using fr by blast
  let ?s0 = "s\<lparr>pending_frames := AList.delete f (pending_frames s)\<rparr>"
  have rf: "run_frame now f s = update now q ?s0"
    by (simp add: run_frame_def Some)
  have other: "map_of (AList.delete f (pending_frames s)) g = Some p"
    if "map_of (animationIds s) p = Some g" "p \<noteq> q" for p g
  proof -
    have "map_of (pending_frames s) g = Some p"
      using that(1) by (rule ids)
    with Some that(2) have "g \<noteq> f"
      by auto
    then show ?thesis
      using \<open>map_of (pending_frames s) g = Some p\<close> by simp
  qed
  have kept: "g < next_frame s \<and> motions s p \<noteq> None"
    if "(g, p) \<in> set (AList.delete f (pending_frames s))" for p g
    using that fr by (auto simp: AList.delete_eq)
  show ?thesis
  proof (cases "p_endTime m - now \<le> 0")
    case True
    have "update now q ?s0 = ?s0\<lparr>animationIds := AList.delete q (animationIds s)\<rparr>"
      using m True by (simp add: update_def)
    then show ?thesis
      unfolding rf pending_sound_iff
      using other kept by (auto simp: delete_conv' split: if_splits)
  next
    case False
    let ?m1 = "update_motion (window_innerWidth s) (window_innerHeight s)
        (cfg_bounceCount (config s)) (cfg_duration (config s)) (p_endTime m - now) m"
    have u: "update now q ?s0 =
        ?s0\<lparr>motions := (motions s)(q \<mapsto> ?m1),
            pending_frames := AList.delete f (pending_frames s) @ [(next_frame s, q)],
            next_frame := Suc (next_frame s),
            animationIds := AList.update q (next_frame s) (animationIds s)\<rparr>"
      using m False by (simp add: update_def requestAnimationFrame_def Let_def)
    have fresh: "map_of (AList.delete f (pending_frames s)) (next_frame s) = None"
    proof -
      have "next_frame s \<notin> fst ` set (AList.delete f (pending_frames s))"
        using kept by fastforce
      then show ?thesis
        by (simp add: map_of_eq_None_iff)
    qed
    show ?thesis
      unfolding rf u pending_sound_iff
      using other kept fresh
      by (auto simp: update_conv' map_add_Some_iff less_Suc_eq split: if_splits)
  qed
qed

lemma animate_sound: "pending_sound s \<Longrightarrow> pending_sound (animate now p s)"
  by (simp add: animate_def run_frame_sound split: option.splits)


text \<open>A frame of another particle leaves a closure and its driver alone.\<close>

lemma animate_other:
  assumes "pending_sound s" "p \<noteq> q"
  shows "motions (animate now q s) p = motions s p"
    and "map_of (animationIds (animate now q s)) p = map_of (animationIds s) p"
proof -
  have "motions (animate now q s) p = motions s p \<and>
      map_of (animationIds (animate now q s)) p = map_of (animationIds s) p"
  proof (cases "map_of (animationIds s) q")
    case None
    then show ?thesis
      by (simp add: animate_def)
  next
    case (Some f)
    then have f: "map_of (pending_frames s) f = Some q"
      using assms(1) by (simp add: pending_sound_iff)
    show ?thesis
      using assms(2)
      by (simp add: animate_def Some run_frame_def f update_def requestAnimationFrame_def
          Let_def update_conv' delete_conv' split: option.splits)
  qed
  then show "motions (animate now q s) p = motions s p"
    and "map_of (animationIds (animate now q s)) p = map_of (animationIds s) p"
    by simp_all
qed

text \<open>A frame of the particle itself is one step of \<open>run_updates\<close>.\<close>

lemma animate_own:
  assumes "pending_sound s" "motions s p = Some m" "map_of (animationIds s) p = Some f"
  shows "p_endTime m - now \<le> 0 \<Longrightarrow>
           motions (animate now p s) p = Some m \<and>
           map_of (animationIds (animate now p s)) p = None"
    and "0 < p_endTime m - now \<Longrightarrow>
           motions (animate now p s) p =
             Some (update_motion (window_innerWidth s) (window_innerHeight s)
               (cfg_bounceCount (config s)) (cfg_duration (config s)) (p_endTime m - now) m) \<and>
           map_of (animationIds (animate now p s)) p = Some (next_frame s)"
proof -
  have f: "map_of (pending_frames s) f = Some p"
    using assms(1,3) by (simp add: pending_sound_iff)
  show "motions (animate now p s) p = Some m \<and>
      map_of (animationIds (animate now p s)) p = None" if "p_endTime m - now \<le> 0"
    using that assms(2)
    by (simp add: animate_def assms(3) run_frame_def f update_def delete_conv')
  show "motions (animate now p s) p =
        Some (update_motion (window_innerWidth s) (window_innerHeight s)
          (cfg_bounceCount (config s)) (cfg_duration (config s)) (p_endTime m - now) m) \<and>
      map_of (animationIds (animate now p s)) p = Some (next_frame s)"
    if "0 < p_endTime m - now"
    using that assms(2)
    by (simp add: animate_def assms(3) run_frame_def f update_def requestAnimationFrame_def
        Let_def update_conv')
qed

lemma frames_of_Cons:
  "frames_of p s ((now, q) # evs) =
     (if q = p then (now, window_innerWidth s, window_innerHeight s) # frames_of p s evs
      else frames_of p s evs)"
  by (simp add: frames_of_def)

lemma closure_after_Nil: "closure_after p s [] m = m"
  by (simp add: closure_after_def frames_of_def split: option.splits)

lemma closure_of_animation:
  assumes "pending_sound s" "motions s p = Some m"
  shows "motions (animation evs s) p = Some (closure_after p s evs m)"
  using assms
proof (induction evs arbitrary: s m)
  case Nil
  then show ?case
    by (simp add: closure_after_Nil)
next
  case (Cons ev evs)
  obtain now q where ev: "ev = (now, q)"
    by (cases ev)
  let ?s1 = "animate now q s"
  have sound: "pending_sound ?s1"
    using Cons.prems(1) by (rule animate_sound)
  have fo: "frames_of p (animate now r s) evs = frames_of p s evs" for r
    by (rule frames_of_constants) (simp_all add: animate_constants)
  show ?case
  proof (cases "q = p")
    case False
    then have p: "p \<noteq> q"
      by simp
    have "motions ?s1 p = Some m"
      using animate_other(1) [OF Cons.prems(1) p] Cons.prems(2) by simp
    then have "motions (animation evs ?s1) p = Some (closure_after p ?s1 evs m)"
      by (rule Cons.IH [OF sound])
    moreover have "closure_after p ?s1 evs m = closure_after p s (ev # evs) m"
      using False
      by (simp add: closure_after_def animate_other(2) [OF Cons.prems(1) p] fo animate_constants
          ev frames_of_Cons split: option.splits)
    ultimately show ?thesis
      by (simp add: ev)
  next
    case True
    show ?thesis
    proof (cases "map_of (animationIds s) p")
      case None
      then have "?s1 = s"
        by (simp add: animate_def True)
      then show ?thesis
        using Cons.IH [OF Cons.prems] None by (simp add: ev closure_after_def)
    next
      case (Some f)
      note own = animate_own [OF Cons.prems Some, of now]
      show ?thesis
      proof (cases "p_endTime m - now \<le> 0")
        case expired: True
        have "motions (animation evs ?s1) p = Some (closure_after p ?s1 evs m)"
          using own(1) [OF expired] by (intro Cons.IH [OF sound]) (simp add: True)
        moreover have "closure_after p ?s1 evs m = m"
          using own(1) [OF expired] by (simp add: closure_after_def True)
        moreover have "closure_after p s (ev # evs) m = m"
          using expired by (simp add: closure_after_def Some frames_of_Cons ev True)
        ultimately show ?thesis
          by (simp add: ev)
      next
        case False
        then have alive: "0 < p_endTime m - now"
          by simp
        let ?m1 = "update_motion (window_innerWidth s) (window_innerHeight s)
            (cfg_bounceCount (config s)) (cfg_duration (config s)) (p_endTime m - now) m"
        have "motions (animation evs ?s1) p = Some (closure_after p ?s1 evs ?m1)"
          using own(2) [OF alive] by (intro Cons.IH [OF sound]) (simp add: True)
        moreover have "closure_after p ?s1 evs ?m1 = closure_after p s (ev # evs) m"
          using own(2) [OF alive] False
          by (simp add: closure_after_def Some fo animate_constants True frames_of_Cons ev)
        ultimately show ?thesis
          by (simp add: ev)
      qed
    qed
  qed
qed


section \<open>The drivers of a new burst\<close>

lemma createParticles_body_closure:
  "next_frame (fst (createParticles_body now sp cx sy (s, fr))) = Suc (next_frame s)"
  "random_seq (fst (createParticles_body now sp cx sy (s, fr))) = random_seq s"
  "motions (fst (createParticles_body now sp cx sy (s, fr))) =
     (motions s)(elements_created s \<mapsto>
        animateParticle_init (config s) now
          (random_seq s (random_drawn s + 7)) (random_seq s (random_drawn s + 8))
          (random_seq s (random_drawn s + 9))
          (cx + (random_seq s (random_drawn s + 6) - 0.5) * (window_innerWidth s * 0.3)) sy
          ((random_seq s (random_drawn s + 5) - 0.5) * sp))"
  by (simp_all add: createParticles_body_def createParticle_def animateParticle_def host_defs
      Let_def eval_nat_numeral split: prod.splits)

lemma body_pending_sound:
  assumes "drivers_match (fst sf)" "pending_sound (fst sf)"
  shows "pending_sound (fst (createParticles_body now sp cx sy sf))"
proof -
  obtain s fr where sf: "sf = (s, fr)"
    by (cases sf)
  note inv = assms(2) [unfolded sf fst_conv pending_sound_iff]
  have "elements_created s \<notin> set (particles s)"
    using assms(1) by (auto simp: sf drivers_match_def list_all_iff)
  then have "elements_created s \<notin> fst ` set (animationIds s)"
    using assms(1) by (simp add: sf drivers_match_def flip: set_map)
  then have new: "map_of (animationIds s) (elements_created s) = None"
    by (simp add: map_of_eq_None_iff)
  have "next_frame s \<notin> fst ` set (pending_frames s)"
    using inv by fastforce
  then have fresh: "map_of (pending_frames s) (next_frame s) = None"
    by (simp add: map_of_eq_None_iff)
  show ?thesis
    unfolding sf fst_conv pending_sound_iff
    using inv new fresh
    by (auto simp: createParticles_body_closure update_conv' map_add_Some_iff less_Suc_eq
        split: if_splits)
qed

lemma turns_pending_sound:
  "drivers_match (fst sf) \<Longrightarrow> pending_sound (fst sf) \<Longrightarrow>
   pending_sound (fst (((createParticles_body now sp cx sy) ^^ k) sf))"
  by (induction k) (simp_all add: body_pending_sound turns_drivers_match)

text \<open>When \<open>Math.random()\<close> always gives \<open>c\<close>, every particle of the loop starts alike.\<close>

lemma turns_motions:
  assumes "random_seq (fst sf) = (\<lambda>_. c)"
  shows "random_seq (fst (((createParticles_body now sp cx sy) ^^ k) sf)) = (\<lambda>_. c) \<and>
     (\<forall>e. elements_created (fst sf) \<le> e \<and> e < elements_created (fst sf) + k \<longrightarrow>
        motions (fst (((createParticles_body now sp cx sy) ^^ k) sf)) e =
          Some (animateParticle_init (config (fst sf)) now c c c
            (cx + (c - 0.5) * (window_innerWidth (fst sf) * 0.3)) sy ((c - 0.5) * sp)))"
proof (induction k)
  case 0
  show ?case
    using assms by auto
next
  case (Suc k)
  let ?r = "((createParticles_body now sp cx sy) ^^ k) sf"
  obtain s fr where r: "?r = (s, fr)"
    by (cases ?r)
  have e: "elements_created s = elements_created (fst sf) + k"
    using turns_particles [where now = now and sp = sp and cx = cx and sy = sy and k = k
        and sf = sf] by (simp add: r)
  have c: "config s = config (fst sf)" "window_innerWidth s = window_innerWidth (fst sf)"
    using turns_outside [where now = now and sp = sp and cx = cx and sy = sy and k = k
        and sf = sf] by (simp_all add: r outside_loop_def)
  show ?case
    using Suc.IH by (auto simp: r createParticles_body_closure e c less_Suc_eq)
qed


lemma pending_sound_fields:
  assumes "animationIds s' = animationIds s" "pending_frames s' = pending_frames s"
    "next_frame s' = next_frame s" "motions s' = motions s"
  shows "pending_sound s' = pending_sound s"
  unfolding pending_sound_def assms ..

lemma createParticles_sound:
  assumes "container s = Some c" "drivers_match s" "pending_sound s"
  shows "pending_sound (createParticles now s)"
proof -
  have "pending_sound (snd (draw_centerX s))"
    using assms(3) by (simp add: pending_sound_fields [of "snd (draw_centerX s)" s] draw_centerX_fields)
  then have "pending_sound (fst (((createParticles_body now (cfg_spread (config s))
      (fst (draw_centerX s)) (window_innerHeight s + cfg_spread (config s))) ^^ turns s)
      (snd (draw_centerX s), [])))"
    using assms(2) by (intro turns_pending_sound) (simp_all add: draw_centerX_fields)
  then show ?thesis
    by (simp add: createParticles_turns [OF assms(1)] Let_def
        pending_sound_fields [of "r\<lparr>child_nodes := v\<rparr>" r for r v])
qed

lemma createParticles_motions:
  assumes "container s = Some c" "random_seq s = (\<lambda>_. r)"
    and "elements_created s \<le> e" "e < elements_created s + turns s"
  shows "motions (createParticles now s) e =
     Some (animateParticle_init (config s) now r r r
       (fst (draw_centerX s) + (r - 0.5) * (window_innerWidth s * 0.3))
       (window_innerHeight s + cfg_spread (config s)) ((r - 0.5) * cfg_spread (config s)))"
proof -
  have o: "config (snd (draw_centerX s)) = config s"
      "window_innerWidth (snd (draw_centerX s)) = window_innerWidth s"
    using draw_centerX_fields(3) [of s] by (simp_all add: outside_loop_def)
  show ?thesis
    using turns_motions [where sf = "(snd (draw_centerX s), [])" and c = r and now = now
        and sp = "cfg_spread (config s)" and cx = "fst (draw_centerX s)"
        and sy = "window_innerHeight s + cfg_spread (config s)" and k = "turns s"] assms(2-4)
    by (simp add: createParticles_turns [OF assms(1)] Let_def draw_centerX_fields o)
qed

lemma scheduleCleanup_closures:
  "motions (scheduleCleanup s) = motions s"
  "next_frame (scheduleCleanup s) = next_frame s"
  "window_innerWidth (scheduleCleanup s) = window_innerWidth s"
  "window_innerHeight (scheduleCleanup s) = window_innerHeight s"
  by (simp_all add: scheduleCleanup_def clearTimeout_def setTimeout_def Let_def
      split: option.splits)

lemma fire_sound: "pending_sound (fire now (new_burst options w h rnd))"
proof -
  let ?s1 = "createContainer (new_burst options w h rnd)"
  have "pending_sound (createParticles now ?s1)"
  proof (rule createParticles_sound)
    show "container ?s1 = Some 0"
      by (simp add: createContainer_fields new_burst_fields)
    show "drivers_match ?s1"
      by (simp add: drivers_match_def createContainer_fields new_burst_fields)
    show "pending_sound ?s1"
      by (simp add: pending_sound_def createContainer_fields new_burst_fields)
  qed
  then show ?thesis
    by (simp add: fire_def scheduleCleanup_fields scheduleCleanup_closures
        pending_sound_fields [of "scheduleCleanup r" r for r])
qed

text \<open>
  The closures of a burst just fired in a document that was empty, when
  \<open>Math.random()\<close> always gives \<open>r\<close> and \<open>randomizeStart\<close> is not set.
\<close>

lemma fire_motions:
  fixes options w h r now
  defines "cfg \<equiv> ConfettiBurst_constructor options"
  assumes "\<not> cfg_randomizeStart cfg" "1 \<le> e" "e < 1 + (nat \<lceil>cfg_particleCount cfg\<rceil> - 1)"
  shows "motions (fire now (new_burst options w h (\<lambda>_. r))) e =
     Some (animateParticle_init cfg now r r r (w / 2 + (r - 0.5) * (w * 0.3))
       (h + cfg_spread cfg) ((r - 0.5) * cfg_spread cfg))"
proof -
  let ?s1 = "createContainer (new_burst options w h (\<lambda>_. r))"
  have s1: "container ?s1 = Some 0" "random_seq ?s1 = (\<lambda>_. r)" "elements_created ?s1 = 1"
      "config ?s1 = cfg" "window_innerWidth ?s1 = w" "window_innerHeight ?s1 = h"
    by (simp_all add: createContainer_def createElement_def new_burst_def cfg_def)
  have cx: "fst (draw_centerX ?s1) = w / 2"
    using assms(2) by (simp add: draw_centerX_def s1)
  have "motions (createParticles now ?s1) e =
     Some (animateParticle_init (config ?s1) now r r r
       (fst (draw_centerX ?s1) + (r - 0.5) * (window_innerWidth ?s1 * 0.3))
       (window_innerHeight ?s1 + cfg_spread (config ?s1)) ((r - 0.5) * cfg_spread (config ?s1)))"
    using assms(3,4) by (intro createParticles_motions [OF s1(1,2)]) (simp_all add: s1 turns_def)
  then show ?thesis
    by (simp add: fire_def scheduleCleanup_closures s1 cx)
qed

section \<open>Fade-out in a frame\<close>

lemma st_opacity_collisions [simp]:
  "st_opacity (apply_physics m) = st_opacity m"
  "st_opacity (collide_top bc m) = st_opacity m"
  "st_opacity (collide_bottom h bc m) = st_opacity m"
  "st_opacity (collide_side w m) = st_opacity m"
  by (simp_all add: apply_physics_def collide_top_def collide_bottom_def collide_side_def
      Let_def split: prod.splits)

lemma update_motion_opacity:
  "st_opacity (update_motion w h bc d t m) =
     (if 1 - t / d > 0.7 then Some (applyFadeOut t d) else st_opacity m)"
  by (simp add: update_motion_def handle_collisions_def apply_styles_def Let_def)

text \<open>
  Claim C6, as the code has it. For a duration other than 0 the opacity is the function
  \<open>fade_spec\<close> of the progress \<open>1 - timeLeft / duration\<close>: 1 up to a progress of 0.7, then
  the value of \<open>1 - (progress - 0.7) / 0.3\<close>. For a positive duration, less time left
  never gives more opacity. A frame writes the opacity to the particle when the
  progress is past 0.7 and leaves it as it was otherwise. A frame whose time is up
  returns before that and changes no closure, so the opacity is applied only while
  time is left.
\<close>

theorem fade_out_opacity:
  "(duration \<noteq> 0 \<longrightarrow>
      applyFadeOut timeLeft duration = fade_spec (1 - timeLeft / duration) \<and>
      st_opacity (update_motion w h bc duration timeLeft m) =
        (if 1 - timeLeft / duration > 0.7 then Some (applyFadeOut timeLeft duration)
         else st_opacity m)) \<and>
   (0 < duration \<and> t1 \<le> t2 \<longrightarrow> applyFadeOut t1 duration \<le> applyFadeOut t2 duration) \<and>
   (motions s particle = Some m \<and> p_endTime m - now \<le> 0 \<longrightarrow>
      motions (update now particle s) = motions s) \<and>
   (motions s particle = Some m \<and> 0 < p_endTime m - now \<longrightarrow>
      motions (update now particle s) particle =
        Some (update_motion (window_innerWidth s) (window_innerHeight s)
          (cfg_bounceCount (config s)) (cfg_duration (config s)) (p_endTime m - now) m))"
  using applyFadeOut_mono [of duration t1 t2]
  by (simp add: applyFadeOut_fade_spec update_motion_opacity update_motions_expired
      update_motions_alive)

lemma sample_closure:
  "motions sample_burst 1 =
     Some \<lparr>p_rotation = 0, p_x = 600, p_y = 870, p_vy = - 25, p_vx = 0, p_bounces = 0,
       p_isSettling = False, p_rotationSpeed = 0, p_wind = 0, p_endTime = 2000,
       st_left = 600, st_top = 870, st_transform = None, st_opacity = None\<rparr>"
  "map_of (animationIds sample_burst) 1 = Some 1"
  "map_of (pending_frames sample_burst) 1 = Some 1"
  "window_innerWidth sample_burst = 1200" "window_innerHeight sample_burst = 800"
  "cfg_bounceCount (config sample_burst) = 2" "cfg_duration (config sample_burst) = 2000"
  by (simp_all add: sample_burst_def burst_defs)

lemmas motion_defs = update_motion_def apply_styles_def handle_collisions_def collide_side_def
  collide_bottom_def collide_top_def apply_physics_def handleTopBounce_def
  handleBottomBounce_def handleSideBounce_def

theorem fade_out_opacity_witness:
  "(2000::real) \<noteq> 0 \<and> applyFadeOut 1000 2000 = fade_spec (1 - 1000 / 2000) \<and>
   applyFadeOut 1000 2000 = 1 \<and>
   (0::real) < 2000 \<and> (100::real) \<le> 300 \<and> applyFadeOut 100 2000 \<le> applyFadeOut 300 2000 \<and>
   (\<exists>m. motions sample_burst 1 = Some m \<and> p_endTime m - 2000 \<le> 0 \<and>
        0 < p_endTime m - 1999) \<and>
   motions (update 2000 1 sample_burst) = motions sample_burst \<and>
   (case motions (update 1999 1 sample_burst) 1 of
      None \<Rightarrow> False
    | Some m \<Rightarrow> (case st_opacity m of None \<Rightarrow> False | Some v \<Rightarrow> 0 < v \<and> v \<le> 1))"
proof -
  let ?m = "\<lparr>p_rotation = 0, p_x = 600, p_y = 870, p_vy = - 25, p_vx = 0, p_bounces = 0,
       p_isSettling = False, p_rotationSpeed = 0, p_wind = 0, p_endTime = 2000,
       st_left = 600, st_top = 870, st_transform = None, st_opacity = None\<rparr>"
  note m = sample_closure(1)
  note th1 = fade_out_opacity [where duration = 2000 and timeLeft = 1000 and ?t1.0 = 100
      and ?t2.0 = 300 and s = sample_burst and particle = 1 and m = ?m and now = 2000]
  note th2 = fade_out_opacity [where duration = 2000 and timeLeft = 1 and ?t1.0 = 100
      and ?t2.0 = 300 and s = sample_burst and particle = 1 and m = ?m and now = 1999
      and w = 1200 and h = 800 and bc = 2]
  have a: "applyFadeOut 1000 2000 = fade_spec (1 - 1000 / 2000)"
      "applyFadeOut 100 2000 \<le> applyFadeOut 300 2000"
      "motions (update 2000 1 sample_burst) = motions sample_burst"
    using th1 m by simp_all
  have b: "motions (update 1999 1 sample_burst) 1 = Some (update_motion 1200 800 2 2000 1 ?m)"
      "st_opacity (update_motion 1200 800 2 2000 1 ?m) = Some (applyFadeOut 1 2000)"
    using th2 m by (simp_all add: sample_closure)
  have v: "applyFadeOut 1 2000 = 1 / 600" "applyFadeOut 1000 2000 = 1"
    by (simp_all add: applyFadeOut_def Let_def)
  show ?thesis
    using a b m by (simp add: v)
qed

text \<open>
  Claim C6 as it is worded says that the opacity reaches exactly 0 when no time is
  left. Take the first particle of the burst one millisecond before its end and at its
  end: the frame at the end leaves the closure as the frame before left it, with an
  opacity above 0.
\<close>

theorem fade_out_zero_counterexample:
  "(let s1 = animation [(1999, 1)] sample_burst;
        s2 = animation [(1999, 1), (2000, 1)] sample_burst
    in motions s2 1 = motions s1 1 \<and>
       (case motions s2 1 of
          None \<Rightarrow> False
        | Some m \<Rightarrow> (case st_opacity m of None \<Rightarrow> False | Some v \<Rightarrow> 0 < v)))"
proof -
  have sound: "pending_sound sample_burst"
    unfolding sample_burst_def by (rule fire_sound)
  note c = closure_of_animation [OF sound sample_closure(1)]
  have f1: "frames_of 1 sample_burst [(1999, 1)] = [(1999, 1200, 800)]"
      "frames_of 1 sample_burst [(1999, 1), (2000, 1)] = [(1999, 1200, 800), (2000, 1200, 800)]"
    by (simp_all add: frames_of_def sample_closure)
  show ?thesis
    using c [of "[(1999, 1)]"] c [of "[(1999, 1), (2000, 1)]"] sample_closure(2) f1
    by (simp add: Let_def closure_after_def sample_closure(6,7) motion_defs applyFadeOut_def)
qed

section \<open>The bounce counter\<close>

text \<open>
  A particle of a burst with the default options in a window 200 high, its velocity
  factor being 1: it starts at 270, bounces off the top, then off the bottom, which
  brings the counter to the \<open>bounceCount\<close> of 2 and sets the settling flag. After 43
  frames it is settling with a counter of 2 and rising; frame 44 reflects it off the
  top edge and the counter is 3.
\<close>

lemma short_window_run:
  "(let cfg = ConfettiBurst_constructor None;
        m0 = animateParticle_init cfg 0 (1 / 2) (1 / 2) (1 / 2) 600 270 0;
        m43 = run_updates 2 2000 (steady_frames 1200 200 43) m0;
        m44 = run_updates 2 2000 (steady_frames 1200 200 44) m0
    in p_bounces m43 = 2 \<and> p_isSettling m43 \<and> p_y m43 = 81 / 20 \<and> p_vy m43 = - (201 / 20) \<and>
       p_bounces m44 = 3 \<and> p_isSettling m44 \<and> p_y m44 = 0 \<and> p_vy m44 = 6867 / 2000)"
  by (simp add: Let_def steady_frames_def animateParticle_init_def ConfettiBurst_constructor_def
      no_options_def upt_rec update_motion_def apply_styles_def handle_collisions_def
      collide_side_def collide_bottom_def collide_top_def apply_physics_def handleTopBounce_def
      handleBottomBounce_def handleSideBounce_def applyFadeOut_def)

lemma frames_of_ticks:
  "frames_of p s (ticks n p) = steady_frames (window_innerWidth s) (window_innerHeight s) n"
  by (simp add: frames_of_def ticks_def steady_frames_def)

text \<open>
  Claim C2 on that burst: \<open>new ConfettiBurst().fire()\<close> at time 0 in a window of 1200
  by 200, every \<open>Math.random()\<close> giving one half, and then the browser running the
  frames of the first particle. Its \<open>bounceCount\<close> is 2. After 43 frames the counter
  of the particle is 2 and it is settling; after 44 the counter is 3 and the particle
  is on the top edge, moving down.
\<close>

theorem top_bounce_exceeds_bounceCount:
  "(let s = fire 0 (new_burst None 1200 200 (\<lambda>_. 1 / 2));
        before = motions (animation (ticks 43 1) s) 1;
        after = motions (animation (ticks 44 1) s) 1
    in cfg_bounceCount (config s) = 2 \<and>
       map_option p_bounces before = Some 2 \<and> map_option p_isSettling before = Some True \<and>
       map_option p_vy before = Some (- (201 / 20)) \<and>
       map_option p_bounces after = Some 3 \<and> map_option p_y after = Some 0 \<and>
       map_option p_vy after = Some (6867 / 2000))"
proof -
  let ?s = "fire 0 (new_burst None 1200 200 (\<lambda>_. 1 / 2))"
  let ?m0 = "animateParticle_init (ConfettiBurst_constructor None) 0 (1 / 2) (1 / 2) (1 / 2)
      600 270 0"
  have cfg: "cfg_bounceCount (ConfettiBurst_constructor None) = 2"
      "cfg_duration (ConfettiBurst_constructor None) = 2000"
      "cfg_particleCount (ConfettiBurst_constructor None) = 150"
      "cfg_spread (ConfettiBurst_constructor None) = 70"
      "\<not> cfg_randomizeStart (ConfettiBurst_constructor None)"
    by (simp_all add: ConfettiBurst_constructor_def no_options_def)
  have m0: "motions ?s 1 = Some ?m0"
    using fire_motions [where options = None and w = 1200 and h = 200 and r = "1 / 2"
        and now = 0 and e = 1]
    by (simp add: cfg)
  have "container (createContainer (new_burst None 1200 200 (\<lambda>_. 1 / 2))) = Some 0"
    by (simp add: createContainer_fields new_burst_fields)
  note cp = createParticles_facts(11,12) [OF this]
  have win: "window_innerWidth ?s = 1200" "window_innerHeight ?s = 200"
    by (simp_all add: fire_def scheduleCleanup_closures cp)
      (simp_all add: createContainer_def createElement_def new_burst_def)
  have "1 \<in> set (map fst (animationIds ?s))"
    by (simp only: fire_new_burst cfg) simp
  then obtain f where f: "map_of (animationIds ?s) 1 = Some f"
    by (metis map_of_eq_None_iff not_Some_eq set_map)
  have run: "motions (animation (ticks n 1) ?s) 1 =
      Some (run_updates 2 2000 (steady_frames 1200 200 n) ?m0)" for n
    using closure_of_animation [OF fire_sound m0, of "ticks n 1"] f
    by (simp add: closure_after_def frames_of_ticks win fire_new_burst cfg)
  show ?thesis
    using short_window_run run [of 43] run [of 44]
    by (simp add: Let_def fire_new_burst cfg)
qed


section \<open>Debouncing\<close>

lemma waiting_elapse_early:
  assumes "waiting hk due options" "now < due"
  shows "elapse w h now hk = hk"
  using assms by (auto simp: waiting_def elapse_def split: option.splits)

lemma waiting_elapse_due:
  assumes "waiting hk due options" "due \<le> now"
  shows "elapse w h now hk =
     debounced w h options (hk\<lparr>debounce_timers := []\<rparr>)"
  using assms by (auto simp: waiting_def elapse_def run_timer_def split: option.splits)

lemma waiting_fireConfetti:
  assumes "waiting hk due options"
  shows "waiting (fireConfetti now options' hk) (now + 200) options'"
    and "fired (fireConfetti now options' hk) = fired hk"
    and "activeInstancesRef (fireConfetti now options' hk) = activeInstancesRef hk"
    and "isActive (fireConfetti now options' hk) = isActive hk"
    and "stops (fireConfetti now options' hk) = stops hk"
  using assms by (auto simp: waiting_def fireConfetti_def Let_def split: option.splits)

lemma idle_fireConfetti:
  assumes "debounce_timers hk = []" "0 < next_timer hk"
  shows "waiting (fireConfetti now options' hk) (now + 200) options'"
    and "fired (fireConfetti now options' hk) = fired hk"
    and "activeInstancesRef (fireConfetti now options' hk) = activeInstancesRef hk"
    and "isActive (fireConfetti now options' hk) = isActive hk"
    and "stops (fireConfetti now options' hk) = stops hk"
  using assms by (auto simp: waiting_def fireConfetti_def Let_def split: option.splits)

lemma idle_elapse: "debounce_timers hk = [] \<Longrightarrow> elapse w h now hk = hk"
  by (simp add: elapse_def)

text \<open>
  Further calls, all before the bound \<open>b\<close> and none more than 200 before it, while a
  timer is pending that is not due before \<open>b\<close>: the last call's timer is pending.
\<close>

lemma waiting_calls:
  assumes "waiting hk (t0 + 200) o0" "b \<le> t0 + 200"
    and "\<forall>c \<in> set cs. fst c < b \<and> b \<le> fst c + 200"
  shows "waiting (calls w h cs hk) (fst (last ((t0, o0) # cs)) + 200)
           (snd (last ((t0, o0) # cs))) \<and>
         fired (calls w h cs hk) = fired hk \<and>
         activeInstancesRef (calls w h cs hk) = activeInstancesRef hk \<and>
         isActive (calls w h cs hk) = isActive hk \<and>
         stops (calls w h cs hk) = stops hk"
  using assms
proof (induction cs arbitrary: hk t0 o0)
  case Nil
  then show ?case
    by simp
next
  case (Cons c cs)
  obtain now options' where c: "c = (now, options')"
    by (cases c)
  have now: "now < b" "b \<le> now + 200"
    using Cons.prems(3) by (simp_all add: c)
  then have "now < t0 + 200"
    using Cons.prems(2) by simp
  then have early: "elapse w h now hk = hk"
    by (rule waiting_elapse_early [OF Cons.prems(1)])
  note step = waiting_fireConfetti [OF Cons.prems(1), of now options']
  have "waiting (calls w h cs (fireConfetti now options' hk))
           (fst (last ((now, options') # cs)) + 200)
           (snd (last ((now, options') # cs))) \<and>
         fired (calls w h cs (fireConfetti now options' hk)) = fired (fireConfetti now options' hk) \<and>
         activeInstancesRef (calls w h cs (fireConfetti now options' hk)) =
           activeInstancesRef (fireConfetti now options' hk) \<and>
         isActive (calls w h cs (fireConfetti now options' hk)) = isActive (fireConfetti now options' hk) \<and>
         stops (calls w h cs (fireConfetti now options' hk)) = stops (fireConfetti now options' hk)"
    using Cons.prems(3) now by (intro Cons.IH [OF step(1)]) auto
  then show ?case
    by (simp add: c early step)
qed

text \<open>The same from a hook with no timer pending, for at least one call.\<close>

lemma idle_calls:
  assumes "debounce_timers hk = []" "0 < next_timer hk" "cs \<noteq> []"
    and "\<forall>c \<in> set cs. fst c < b \<and> b \<le> fst c + 200"
  shows "waiting (calls w h cs hk) (fst (last cs) + 200) (snd (last cs)) \<and>
         fired (calls w h cs hk) = fired hk \<and>
         activeInstancesRef (calls w h cs hk) = activeInstancesRef hk \<and>
         isActive (calls w h cs hk) = isActive hk \<and>
         stops (calls w h cs hk) = stops hk"
proof -
  obtain now options cs' where cs: "cs = (now, options) # cs'"
    using assms(3) by (cases cs) auto
  note step = idle_fireConfetti [OF assms(1,2), of now options]
  have "b \<le> now + 200" "\<forall>c \<in> set cs'. fst c < b \<and> b \<le> fst c + 200"
    using assms(4) by (simp_all add: cs)
  from waiting_calls [OF step(1) this, of w h] show ?thesis
    by (simp add: cs idle_elapse [OF assms(1)] step)
qed

lemma debounced_fired:
  "fired (debounced w h options hk) =
     fired hk @ [ConfettiBurst_constructor (Some (baseOptions w h options))]"
  "isActive (debounced w h options hk)"
  "activeInstancesRef (debounced w h options hk) =
     Some (ConfettiBurst_constructor (Some (baseOptions w h options)))"
  "debounce_timers (debounced w h options hk) = debounce_timers hk"
  by (simp_all add: debounced_def burst_stop_def hook_onStop_def Let_def split: option.splits)

lemma sorted_first: "sorted xs \<Longrightarrow> x \<in> set xs \<Longrightarrow> hd xs \<le> (x::nat)"
  by (cases xs) auto

lemma sorted_final: "sorted xs \<Longrightarrow> x \<in> set xs \<Longrightarrow> (x::nat) \<le> last xs"
  by (induction xs) (auto split: if_splits)

text \<open>
  Claim C8. Take a hook with no debounce timer pending and one or more calls of
  \<open>fireConfetti\<close> in the order of their times, the last less than 200 ms after the
  first. After the calls one timer is pending, due 200 ms after the last call and
  holding the options of the last call, and no burst was started. Before that time
  none is started; from that time on exactly one was started, built from the options
  of the last call, it is the active one, and letting more time pass starts no other.
\<close>

theorem debounce:
  "debounce_timers hk = [] \<and> 0 < next_timer hk \<and> cs \<noteq> [] \<and> sorted (map fst cs) \<and>
   fst (last cs) < fst (hd cs) + 200 \<longrightarrow>
     (let hk1 = calls w h cs hk;
          due = fst (last cs) + 200;
          burst = ConfettiBurst_constructor (Some (baseOptions w h (snd (last cs))))
      in waiting hk1 due (snd (last cs)) \<and> fired hk1 = fired hk \<and>
         (now < due \<longrightarrow> fired (elapse w h now hk1) = fired hk) \<and>
         (due \<le> now \<longrightarrow>
            fired (elapse w h now hk1) = fired hk @ [burst] \<and>
            activeInstancesRef (elapse w h now hk1) = Some burst \<and>
            isActive (elapse w h now hk1) \<and>
            (\<forall>later. fired (elapse w h later (elapse w h now hk1)) = fired hk @ [burst])))"
proof (intro impI)
  assume a: "debounce_timers hk = [] \<and> 0 < next_timer hk \<and> cs \<noteq> [] \<and> sorted (map fst cs) \<and>
      fst (last cs) < fst (hd cs) + 200"
  define b where "b = fst (hd cs) + 200"
  have "\<forall>c \<in> set cs. fst c < b \<and> b \<le> fst c + 200"
  proof
    fix c assume c: "c \<in> set cs"
    have "fst c \<in> set (map fst cs)"
      using c by simp
    then have "hd (map fst cs) \<le> fst c" "fst c \<le> last (map fst cs)"
      using a by (simp_all add: sorted_first sorted_final)
    then show "fst c < b \<and> b \<le> fst c + 200"
      using a by (simp add: b_def hd_map last_map)
  qed
  with a have w: "waiting (calls w h cs hk) (fst (last cs) + 200) (snd (last cs))"
      and f: "fired (calls w h cs hk) = fired hk"
    using idle_calls [of hk cs b w h] by simp_all
  show "let hk1 = calls w h cs hk;
          due = fst (last cs) + 200;
          burst = ConfettiBurst_constructor (Some (baseOptions w h (snd (last cs))))
      in waiting hk1 due (snd (last cs)) \<and> fired hk1 = fired hk \<and>
         (now < due \<longrightarrow> fired (elapse w h now hk1) = fired hk) \<and>
         (due \<le> now \<longrightarrow>
            fired (elapse w h now hk1) = fired hk @ [burst] \<and>
            activeInstancesRef (elapse w h now hk1) = Some burst \<and>
            isActive (elapse w h now hk1) \<and>
            (\<forall>later. fired (elapse w h later (elapse w h now hk1)) = fired hk @ [burst]))"
    using w by (auto simp: Let_def waiting_elapse_early [OF w] waiting_elapse_due [OF w] f
        debounced_fired idle_elapse)
qed


text \<open>
  The third scenario of the specification: \<open>fireConfetti()\<close> and, 100 ms later,
  \<open>fireConfetti({particleCount: 10})\<close>. Only the second burst starts, with 10 as its
  \<open>particleCount\<close>, and not before 300 ms.
\<close>

theorem debounce_witness:
  "(let cs = [(0, None), (100, Some (no_options\<lparr>opt_particleCount := Some 10\<rparr>))];
        hk1 = calls 1200 800 cs new_hook
    in debounce_timers new_hook = [] \<and> 0 < next_timer new_hook \<and> cs \<noteq> [] \<and>
       sorted (map fst cs) \<and> fst (last cs) < fst (hd cs) + 200 \<and>
       debounce_timers hk1 = [(2, 300, Some (no_options\<lparr>opt_particleCount := Some 10\<rparr>))] \<and>
       (299::nat) < fst (last cs) + 200 \<and> fired (elapse 1200 800 299 hk1) = [] \<and>
       fst (last cs) + 200 \<le> (300::nat) \<and>
       map cfg_particleCount (fired (elapse 1200 800 300 hk1)) = [10] \<and>
       isActive (elapse 1200 800 300 hk1) \<and>
       length (fired (elapse 1200 800 5000 (elapse 1200 800 300 hk1))) = 1)"
proof -
  let ?o = "Some (no_options\<lparr>opt_particleCount := Some 10\<rparr>)"
  let ?cs = "[(0::nat, None), (100, ?o)]"
  define hk1 where "hk1 = calls 1200 800 ?cs new_hook"
  have pre: "debounce_timers new_hook = [] \<and> 0 < next_timer new_hook \<and> ?cs \<noteq> [] \<and>
      sorted (map fst ?cs) \<and> fst (last ?cs) < fst (hd ?cs) + 200"
    by (simp add: new_hook_def)
  have pc: "cfg_particleCount (ConfettiBurst_constructor (Some (baseOptions 1200 800 ?o))) = 10"
    by (simp add: ConfettiBurst_constructor_def baseOptions_def updateScalingFactors_def
        scalingFactors_init_def avgScale_def no_options_def Math_round_def Let_def)
  have new: "fired new_hook = []"
    by (simp add: new_hook_def)
  have t: "debounce_timers hk1 = [(2, 300, ?o)]"
    by (simp add: hk1_def new_hook_def elapse_def fireConfetti_def Let_def)
  note th1 = debounce [where hk = new_hook and cs = ?cs and w = 1200 and h = 800 and now = 299,
      unfolded Let_def, folded hk1_def]
  note th2 = debounce [where hk = new_hook and cs = ?cs and w = 1200 and h = 800 and now = 300,
      unfolded Let_def, folded hk1_def]
  have early: "fired (elapse 1200 800 299 hk1) = []"
    using th1 pre by (simp add: new)
  have late: "fired (elapse 1200 800 300 hk1) =
        [ConfettiBurst_constructor (Some (baseOptions 1200 800 ?o))]"
      "isActive (elapse 1200 800 300 hk1)"
      "fired (elapse 1200 800 5000 (elapse 1200 800 300 hk1)) =
        [ConfettiBurst_constructor (Some (baseOptions 1200 800 ?o))]"
    using th2 pre by (simp_all add: new)
  have "debounce_timers new_hook = [] \<and> 0 < next_timer new_hook \<and> ?cs \<noteq> [] \<and>
       sorted (map fst ?cs) \<and> fst (last ?cs) < fst (hd ?cs) + 200 \<and>
       debounce_timers hk1 = [(2, 300, ?o)] \<and>
       (299::nat) < fst (last ?cs) + 200 \<and> fired (elapse 1200 800 299 hk1) = [] \<and>
       fst (last ?cs) + 200 \<le> (300::nat) \<and>
       map cfg_particleCount (fired (elapse 1200 800 300 hk1)) = [10] \<and>
       isActive (elapse 1200 800 300 hk1) \<and>
       length (fired (elapse 1200 800 5000 (elapse 1200 800 300 hk1))) = 1"
    using pre by (simp add: t early late pc)
  then show ?thesis
    unfolding Let_def hk1_def .
qed

end
